theory Spec2Isabelle
  imports Main "HOL-Library.Word" "HOL-Library.Product_Lexorder" "HOL-Library.Multiset"
begin

unbundle bit_operations_syntax

section \<open>The image uploader (main.go)\<close>

text \<open>
  The program is one Go file. A request handler takes the files of a multipart form one
  at a time through \<open>processFile\<close>: size check, content sniffing, SHA-256, duplicate
  lookup, write of the original, thumbnail, metadata insert. A second handler lists the
  most recent rows of the table.

  What main.go calls but does not define (the Go standard library, the imaging library,
  the PostgreSQL server) is kept apart from the program text:
  \<^item> pure library functions whose result the program only passes on are fields of an
    environment record \<open>env\<close>, and every theorem holds for every environment;
  \<^item> \<open>filepath.Ext\<close>, \<open>filepath.Base\<close>, \<open>hex.EncodeToString\<close> and the size
    of what \<open>imaging.Thumbnail\<close> returns decide file names and thumbnail sizes, so
    they are written out after their library sources;
  \<^item> whatever a call can do that the program does not control (an I/O fault, the
    server's clock, the order the server leaves rows of equal sort key in, a write of
    another request between two statements) is a field of a \<open>conditions\<close> record that
    the call receives.
\<close>

subsection \<open>Constants and data\<close>

type_synonym byte = "8 word"

definition uploadDir :: string where
  "uploadDir = ''./image''"

definition thumbnailDir :: string where
  "thumbnailDir = ''./thumb''"

definition maxUploadSize :: int where
  "maxUploadSize = 40 * 1024 * 1024"

abbreviation StatusOK :: int where
  "StatusOK \<equiv> 200"

abbreviation StatusBadRequest :: int where
  "StatusBadRequest \<equiv> 400"

abbreviation StatusConflict :: int where
  "StatusConflict \<equiv> 409"

abbreviation StatusInternalServerError :: int where
  "StatusInternalServerError \<equiv> 500"

text \<open>
  \<open>multipart.FileHeader\<close>: the declared name, the declared size, and the bytes that
  \<open>Open\<close> gives access to.
\<close>

record FileHeader =
  Filename :: string
  Size :: int
  Content :: "byte list"

text \<open>\<open>gin.H\<close> is \<open>map[string]any\<close>; every value the program stores is a string.\<close>

type_synonym gin_H = "string \<rightharpoonup> string"

text \<open>The struct \<open>ImageInfo\<close>. A joined path is kept as the pair of its directory and
  its last element (see \<open>Join\<close>).\<close>

type_synonym path = "string \<times> string"

record ImageInfo =
  ID :: int
  info_Filename :: string
  ThumbnailFilename :: string
  Width :: int
  Height :: int
  SHA256Sum :: string
  UploadDate :: string
  ThumbnailPath :: path
  ImagePath :: path

text \<open>
  A row of the table \<open>images\<close> (README.md: \<open>id SERIAL PRIMARY KEY\<close>, \<open>filename\<close>,
  \<open>thumbnail_filename\<close>, \<open>width\<close>, \<open>height\<close>, \<open>sha256sum CHAR(64) NOT NULL UNIQUE\<close>,
  \<open>upload_date TIMESTAMP WITH TIME ZONE DEFAULT CURRENT_TIMESTAMP\<close>).
\<close>

record row =
  col_id :: int
  col_filename :: string
  col_thumbnail_filename :: string
  col_width :: int
  col_height :: int
  col_sha256sum :: string
  col_upload_date :: int

text \<open>
  The world the handlers act on: the files on disk, the rows of the table in the order
  they were inserted, and the sequence behind \<open>id\<close>.
\<close>

record state =
  files :: "path \<rightharpoonup> byte list"
  rows :: "row list"
  images_id_seq :: int

text \<open>A decoded image: its bounds and its pixels (kept opaque).\<close>

record image =
  Dx :: int
  Dy :: int
  Pix :: "byte list"

datatype Format = JPEG | PNG | GIF | TIFF | BMP

datatype error =
  EOF | IOError | DecodeError | ErrUnsupportedFormat | EncodeError | UniqueViolation | DBError

text \<open>
  Library functions the program passes values through: \<open>http.DetectContentType\<close>,
  \<open>sha256\<close>, the decoder behind \<open>imaging.Open\<close>, \<open>image.DecodeConfig\<close>, the
  resampling filter, \<open>imaging.Encode\<close>, and the text the driver renders a timestamp as.
\<close>

record env =
  DetectContentType :: "byte list \<Rightarrow> string"
  Sum256 :: "byte list \<Rightarrow> byte list"
  Decode :: "byte list \<Rightarrow> image option"
  DecodeConfig :: "byte list \<Rightarrow> (int \<times> int) option"
  Resample :: "image \<Rightarrow> int \<Rightarrow> int \<Rightarrow> byte list"
  Encode :: "Format \<Rightarrow> image \<Rightarrow> byte list option"
  FormatTime :: "int \<Rightarrow> string"

text \<open>
  What one call of \<open>processFile\<close> meets and does not control. A fault flag stands for
  every reason the call can fail for that is not in the model (the disk, the connection,
  a column constraint other than the uniqueness of \<open>sha256sum\<close>).
  \<open>concurrent\<close> is what other requests have committed between this request's
  duplicate lookup and its first write.
\<close>

record conditions =
  open_err :: "string option"
  read_err :: bool
  hash_err :: bool
  exists_err :: bool
  concurrent :: "state \<Rightarrow> state"
  create_err :: bool
  write_err :: "nat option"
  imaging_open_err :: bool
  imaging_save_err :: bool
  os_open_err :: bool
  exec_err :: bool
  current_timestamp :: int

subsection \<open>Library functions that decide names and sizes\<close>

text \<open>\<open>hex.EncodeToString\<close>: \<open>hextable[v>>4]\<close>, \<open>hextable[v&0x0f]\<close> for every byte.\<close>

definition hextable :: string where
  "hextable = ''0123456789abcdef''"

fun EncodeToString :: "byte list \<Rightarrow> string" where
  "EncodeToString [] = []"
| "EncodeToString (v # src) =
     hextable ! unat (drop_bit 4 v) # hextable ! unat (v AND 0x0f) # EncodeToString src"

text \<open>
  \<open>filepath.Ext\<close> (Unix): walk back from the end of the path while the byte is not a
  separator; at the first dot return the path from there; otherwise the empty string.
  \<open>ext_scan\<close> walks the reversed path and carries what it has passed.
\<close>

fun ext_scan :: "string \<Rightarrow> string \<Rightarrow> string" where
  "ext_scan [] passed = []"
| "ext_scan (c # front) passed =
     (if c = CHR ''/'' then []
      else if c = CHR ''.'' then c # passed
      else ext_scan front (c # passed))"

definition Ext :: "string \<Rightarrow> string" where
  "Ext p = ext_scan (rev p) []"

text \<open>
  \<open>filepath.Base\<close> (Unix): \<open>"."\<close> for the empty path; otherwise strip the trailing
  slashes, keep what follows the last slash, and return \<open>"/"\<close> if nothing is left.
\<close>

definition Base :: "string \<Rightarrow> string" where
  "Base p =
     (if p = [] then ''.''
      else let stripped = rev (dropWhile (\<lambda>c. c = CHR ''/'') (rev p));
               last_elem = rev (takeWhile (\<lambda>c. c \<noteq> CHR ''/'') (rev stripped))
           in if last_elem = [] then ''/'' else last_elem)"

text \<open>
  \<open>filepath.Join(dir, name)\<close>. The model keeps the two parts side by side instead of
  cleaning the joined string: every name the program joins is a digest followed by an
  extension, and \<open>Ext\<close> never returns a separator.
\<close>

definition Join :: "string \<Rightarrow> string \<Rightarrow> path" where
  "Join dir name = (dir, name)"

text \<open>
  \<open>imaging.FormatFromFilename\<close>: the extension of the path without its dot, in lower
  case (ASCII), looked up in the library's table of extensions.
\<close>

definition ToLower :: "string \<Rightarrow> string" where
  "ToLower s =
     map (\<lambda>c. if 65 \<le> (of_char c :: nat) \<and> (of_char c :: nat) \<le> 90
               then char_of ((of_char c :: nat) + 32) else c) s"

definition TrimPrefix :: "string \<Rightarrow> string \<Rightarrow> string" where
  "TrimPrefix s prefix =
     (if take (length prefix) s = prefix then drop (length prefix) s else s)"

definition FormatFromExtension :: "string \<Rightarrow> error + Format" where
  "FormatFromExtension ext =
     (let e = ToLower (TrimPrefix ext ''.'') in
      if e = ''jpg'' \<or> e = ''jpeg'' then Inr JPEG
      else if e = ''png'' then Inr PNG
      else if e = ''gif'' then Inr GIF
      else if e = ''tif'' \<or> e = ''tiff'' then Inr TIFF
      else if e = ''bmp'' then Inr BMP
      else Inl ErrUnsupportedFormat)"

definition FormatFromFilename :: "path \<Rightarrow> error + Format" where
  "FormatFromFilename p = FormatFromExtension (Ext (snd p))"

text \<open>
  \<open>imaging.Thumbnail(img, width, height, filter)\<close> is \<open>Fill(img, width, height, Center,
  filter)\<close> of github.com/disintegration/imaging: "scales the image up or down using the
  specified resample filter, crops it to the specified width and height". \<open>Fill\<close>
  returns an empty image when a requested or a source dimension is not positive, a copy
  when the source already has the requested size, and otherwise an image of exactly the
  requested size. The pixels are the filter's business (\<open>Resample\<close>).
\<close>

definition Thumbnail :: "env \<Rightarrow> image \<Rightarrow> int \<Rightarrow> int \<Rightarrow> image" where
  "Thumbnail env img width height =
     (if width \<le> 0 \<or> height \<le> 0 then \<lparr>Dx = 0, Dy = 0, Pix = []\<rparr>
      else if Dx img \<le> 0 \<or> Dy img \<le> 0 then \<lparr>Dx = 0, Dy = 0, Pix = []\<rparr>
      else if Dx img = width \<and> Dy img = height then img
      else \<lparr>Dx = width, Dy = height, Pix = Resample env img width height\<rparr>)"

text \<open>
  \<open>imaging.Save(img, path)\<close>: the format from the path's extension, then create the
  file, then encode into it. A failing encoder leaves the created file behind, empty.
\<close>

definition Save :: "env \<Rightarrow> conditions \<Rightarrow> state \<Rightarrow> image \<Rightarrow> path \<Rightarrow> error option \<times> state" where
  "Save env cnd s img p =
     (case FormatFromFilename p of
        Inl e \<Rightarrow> (Some e, s)
      | Inr f \<Rightarrow>
          if imaging_save_err cnd then (Some IOError, s)
          else (case Encode env f img of
                  None \<Rightarrow> (Some EncodeError, s\<lparr>files := (files s)(p \<mapsto> [])\<rparr>)
                | Some bs \<Rightarrow> (None, s\<lparr>files := (files s)(p \<mapsto> bs)\<rparr>)))"

subsection \<open>The upload pipeline\<close>

text \<open>
  \<open>src.Read(buff)\<close> on the freshly opened file, \<open>buff\<close> being 512 zero bytes: at
  the end of the stream (an empty file) the reader returns \<open>io.EOF\<close>; otherwise the
  first bytes of the file overwrite the start of the buffer.
\<close>

definition Read :: "conditions \<Rightarrow> byte list \<Rightarrow> nat \<Rightarrow> error + byte list" where
  "Read cnd src n =
     (if src = [] then Inl EOF
      else if read_err cnd then Inl IOError
      else Inr (take n src @ replicate (n - length (take n src)) 0))"

text \<open>\<open>SELECT EXISTS(SELECT 1 FROM images WHERE sha256sum = $1)\<close>.\<close>

definition QueryRow_exists :: "conditions \<Rightarrow> state \<Rightarrow> string \<Rightarrow> error + bool" where
  "QueryRow_exists cnd s sha256sum =
     (if exists_err cnd then Inl DBError
      else Inr (sha256sum \<in> set (map col_sha256sum (rows s))))"

text \<open>
  \<open>INSERT INTO images (filename, thumbnail_filename, width, height, sha256sum)\<close>: the
  server draws \<open>id\<close> from the sequence (a value drawn is not given back), takes
  \<open>upload_date\<close> from its clock, and refuses a second row of the same \<open>sha256sum\<close>.
\<close>

definition Exec_insert ::
  "conditions \<Rightarrow> state \<Rightarrow> string \<Rightarrow> string \<Rightarrow> int \<Rightarrow> int \<Rightarrow> string \<Rightarrow> error option \<times> state" where
  "Exec_insert cnd s filename thumbnailFilename w h sha256sum =
     (if exec_err cnd then (Some DBError, s)
      else let nextval = images_id_seq s + 1;
               s1 = s\<lparr>images_id_seq := nextval\<rparr>
           in if sha256sum \<in> set (map col_sha256sum (rows s)) then (Some UniqueViolation, s1)
              else (None, s1\<lparr>rows := rows s @
                     [\<lparr>col_id = nextval, col_filename = filename,
                       col_thumbnail_filename = thumbnailFilename,
                       col_width = w, col_height = h, col_sha256sum = sha256sum,
                       col_upload_date = current_timestamp cnd\<rparr>]\<rparr>))"

text \<open>\<open>saveFile\<close>: \<open>os.Create\<close>, then \<open>io.Copy\<close>; a copy that fails after \<open>n\<close> bytes
  leaves those bytes in the file.\<close>

definition saveFile :: "conditions \<Rightarrow> state \<Rightarrow> byte list \<Rightarrow> string \<Rightarrow> error option \<times> state" where
  "saveFile cnd s src filename =
     (if create_err cnd then (Some IOError, s)
      else case write_err cnd of
             Some n \<Rightarrow> (Some IOError, s\<lparr>files := (files s)(Join uploadDir filename \<mapsto> take n src)\<rparr>)
           | None \<Rightarrow> (None, s\<lparr>files := (files s)(Join uploadDir filename \<mapsto> src)\<rparr>))"

definition generateThumbnail ::
  "env \<Rightarrow> conditions \<Rightarrow> state \<Rightarrow> string \<Rightarrow> (error + string) \<times> state" where
  "generateThumbnail env cnd s filename =
     (if imaging_open_err cnd then (Inl IOError, s)
      else case files s (Join uploadDir filename) of
             None \<Rightarrow> (Inl IOError, s)
           | Some bs \<Rightarrow>
               (case Decode env bs of
                  None \<Rightarrow> (Inl DecodeError, s)
                | Some src \<Rightarrow>
                    let thumbnail = Thumbnail env src 120 120;
                        b = Base filename;
                        thumbnailFilename = take (length b - length (Ext b)) b @ ''.jpg''
                    in (case Save env cnd s thumbnail (Join thumbnailDir thumbnailFilename) of
                          (Some e, s') \<Rightarrow> (Inl e, s')
                        | (None, s') \<Rightarrow> (Inr thumbnailFilename, s'))))"

definition saveToDatabase ::
  "env \<Rightarrow> conditions \<Rightarrow> state \<Rightarrow> string \<Rightarrow> string \<Rightarrow> string \<Rightarrow> error option \<times> state" where
  "saveToDatabase env cnd s filename thumbnailFilename sha256sum =
     (if os_open_err cnd then (Some IOError, s)
      else case files s (Join uploadDir filename) of
             None \<Rightarrow> (Some IOError, s)
           | Some bs \<Rightarrow>
               (case DecodeConfig env bs of
                  None \<Rightarrow> (Some DecodeError, s)
                | Some (w, h) \<Rightarrow> Exec_insert cnd s filename thumbnailFilename w h sha256sum))"

definition processFile :: "env \<Rightarrow> conditions \<Rightarrow> state \<Rightarrow> FileHeader \<Rightarrow> gin_H \<times> int \<times> state" where
  "processFile env cnd s file =
     (if Size file > maxUploadSize
      then ([''error'' \<mapsto> ''File too large''], StatusBadRequest, s)
      else case open_err cnd of
        Some msg \<Rightarrow> ([''error'' \<mapsto> msg], StatusInternalServerError, s)
      | None \<Rightarrow>
         let src = Content file in
         (case Read cnd src 512 of
           Inl e \<Rightarrow> ([''error'' \<mapsto> ''Failed to read file''], StatusInternalServerError, s)
         | Inr buff \<Rightarrow>
            let filetype = DetectContentType env buff in
            if filetype \<noteq> ''image/jpeg'' \<and> filetype \<noteq> ''image/png''
            then ([''error'' \<mapsto> ''File type not allowed. Only JPG and PNG are allowed.''],
                  StatusBadRequest, s)
            else if hash_err cnd
            then ([''error'' \<mapsto> ''Failed to generate SHA-256''], StatusInternalServerError, s)
            else
              let sha256sum = EncodeToString (Sum256 env src) in
              (case QueryRow_exists cnd s sha256sum of
                Inl e \<Rightarrow> ([''error'' \<mapsto> ''Database error''], StatusInternalServerError, s)
              | Inr exists \<Rightarrow>
                 if exists
                 then ([''error'' \<mapsto> ''File already exists''], StatusConflict, s)
                 else
                   let s0 = concurrent cnd s;
                       filename = sha256sum @ Ext (Filename file)
                   in (case saveFile cnd s0 src filename of
                        (Some e, s1) \<Rightarrow>
                          ([''error'' \<mapsto> ''Failed to save file''], StatusInternalServerError, s1)
                      | (None, s1) \<Rightarrow>
                         (case generateThumbnail env cnd s1 filename of
                            (Inl e, s2) \<Rightarrow>
                              ([''error'' \<mapsto> ''Failed to generate thumbnail''],
                               StatusInternalServerError, s2)
                          | (Inr thumbnailFilename, s2) \<Rightarrow>
                             (case saveToDatabase env cnd s2 filename thumbnailFilename sha256sum of
                                (Some e, s3) \<Rightarrow>
                                  ([''error'' \<mapsto> ''Failed to save to database''],
                                   StatusInternalServerError, s3)
                              | (None, s3) \<Rightarrow>
                                  ([''message'' \<mapsto> ''File uploaded successfully'',
                                    ''sha256sum'' \<mapsto> sha256sum], StatusOK, s3)))))))"

subsection \<open>The upload handler\<close>

text \<open>
  \<open>c.MultipartForm()\<close> gives an error or a form; \<open>form.File\<close> is a Go map, which
  answers a missing key with the empty list. The body of the response is the object of
  the first \<open>c.JSON\<close> or the array of the others.
\<close>

record Form =
  File :: "string \<Rightarrow> FileHeader list"

datatype body = JSON_object gin_H | JSON_array "gin_H list"

text \<open>The \<open>for\<close> loop of \<open>uploadHandler\<close>; the file at position \<open>i\<close> of the list
  meets the conditions \<open>cnds i\<close>.\<close>

fun uploadLoop ::
  "env \<Rightarrow> (nat \<Rightarrow> conditions) \<Rightarrow> state \<Rightarrow> FileHeader list \<Rightarrow> gin_H list
     \<Rightarrow> int \<times> gin_H list \<times> state" where
  "uploadLoop env cnds s [] responses = (StatusOK, responses, s)"
| "uploadLoop env cnds s (file # rest) responses =
     (case processFile env (cnds 0) s file of
        (response, statusCode, s') \<Rightarrow>
          let responses' = responses @ [response(''filename'' \<mapsto> Filename file)]
          in if statusCode \<noteq> StatusOK then (statusCode, responses', s')
             else uploadLoop env (\<lambda>i. cnds (Suc i)) s' rest responses')"

definition uploadHandler ::
  "env \<Rightarrow> (nat \<Rightarrow> conditions) \<Rightarrow> state \<Rightarrow> string + Form \<Rightarrow> int \<times> body \<times> state" where
  "uploadHandler env cnds s multipartForm =
     (case multipartForm of
        Inl err \<Rightarrow> (StatusBadRequest, JSON_object [''error'' \<mapsto> err], s)
      | Inr form \<Rightarrow>
          (case uploadLoop env cnds s (File form ''file'') [] of
             (statusCode, responses, s') \<Rightarrow> (statusCode, JSON_array responses, s')))"

subsection \<open>The recent uploads\<close>

text \<open>
  What one call of \<open>getRecentImages\<close> meets. The statement orders by \<open>upload_date
  DESC\<close> and by nothing else, so the server decides the order of rows of equal
  \<open>upload_date\<close>: \<open>tie_order\<close> is that decision.
\<close>

record query_conditions =
  query_err :: bool
  tie_order :: "row \<Rightarrow> nat"
  scan_err :: "nat option"
  rows_err :: bool

text \<open>\<open>SELECT ... FROM images ORDER BY upload_date DESC LIMIT $1\<close>; the server refuses
  a negative limit.\<close>

definition Query_recent :: "query_conditions \<Rightarrow> state \<Rightarrow> int \<Rightarrow> error + row list" where
  "Query_recent qc s limit =
     (if query_err qc \<or> limit < 0 then Inl DBError
      else Inr (take (nat limit)
                  (sort_key (\<lambda>r. (- col_upload_date r, tie_order qc r)) (rows s))))"

fun scanRows ::
  "env \<Rightarrow> query_conditions \<Rightarrow> nat \<Rightarrow> row list \<Rightarrow> ImageInfo list \<Rightarrow> error + ImageInfo list" where
  "scanRows env qc i [] images = Inr images"
| "scanRows env qc i (r # rest) images =
     (if scan_err qc = Some i then Inl DBError
      else scanRows env qc (Suc i) rest
             (images @
              [\<lparr>ID = col_id r, info_Filename = col_filename r,
                ThumbnailFilename = col_thumbnail_filename r,
                Width = col_width r, Height = col_height r,
                SHA256Sum = col_sha256sum r,
                UploadDate = FormatTime env (col_upload_date r),
                ThumbnailPath = Join ''/thumb'' (col_thumbnail_filename r),
                ImagePath = Join ''/image'' (col_filename r)\<rparr>]))"

definition getRecentImages ::
  "env \<Rightarrow> query_conditions \<Rightarrow> state \<Rightarrow> int \<Rightarrow> error + ImageInfo list" where
  "getRecentImages env qc s limit =
     (case Query_recent qc s limit of
        Inl e \<Rightarrow> Inl e
      | Inr selected \<Rightarrow>
          (case scanRows env qc 0 selected [] of
             Inl e \<Rightarrow> Inl e
           | Inr images \<Rightarrow> if rows_err qc then Inl DBError else Inr images))"

subsection \<open>Notions the statements use\<close>

text \<open>
  A file gets past the duplicate lookup of \<open>processFile\<close>: it is not too large, it
  opens, its first bytes are read and sniff as JPEG or PNG, it is hashed, and the lookup
  answers that no row has its digest.
\<close>

definition past_check :: "env \<Rightarrow> conditions \<Rightarrow> state \<Rightarrow> FileHeader \<Rightarrow> bool" where
  "past_check env cnd s file \<longleftrightarrow>
     Size file \<le> maxUploadSize \<and> open_err cnd = None \<and>
     (\<exists>buff. Read cnd (Content file) 512 = Inr buff \<and>
        (DetectContentType env buff = ''image/jpeg'' \<or>
         DetectContentType env buff = ''image/png'')) \<and>
     \<not> hash_err cnd \<and>
     QueryRow_exists cnd s (EncodeToString (Sum256 env (Content file))) = Inr False"

text \<open>
  Every file of a list succeeds: each one, processed in the state its predecessors
  left, is answered with status 200.
\<close>

fun all_succeed :: "env \<Rightarrow> (nat \<Rightarrow> conditions) \<Rightarrow> state \<Rightarrow> FileHeader list \<Rightarrow> bool" where
  "all_succeed env cnds s [] = True"
| "all_succeed env cnds s (file # rest) =
     (case processFile env (cnds 0) s file of
        (response, statusCode, s') \<Rightarrow>
          statusCode = StatusOK \<and> all_succeed env (\<lambda>i. cnds (Suc i)) s' rest)"

text \<open>
  Hex encoding as the words say it, written apart from the program's table: two
  lower-case base-16 digits for every byte, the high four bits first. \<open>bytes_of_hex\<close>
  reads such a string back and accepts nothing else.
\<close>

definition hex_digit :: "nat \<Rightarrow> char" where
  "hex_digit n =
     (if n < 10 then char_of (of_char (CHR ''0'') + n)
      else char_of (of_char (CHR ''a'') + (n - 10)))"

fun hex_of_bytes :: "byte list \<Rightarrow> string" where
  "hex_of_bytes [] = []"
| "hex_of_bytes (b # bs) =
     hex_digit (unat b div 16) # hex_digit (unat b mod 16) # hex_of_bytes bs"

definition hex_value :: "char \<Rightarrow> nat option" where
  "hex_value c =
     (if of_char (CHR ''0'') \<le> (of_char c :: nat) \<and> (of_char c :: nat) \<le> of_char (CHR ''9'')
      then Some (of_char c - of_char (CHR ''0''))
      else if of_char (CHR ''a'') \<le> (of_char c :: nat) \<and> (of_char c :: nat) \<le> of_char (CHR ''f'')
      then Some (of_char c - of_char (CHR ''a'') + 10)
      else None)"

fun bytes_of_hex :: "string \<Rightarrow> byte list option" where
  "bytes_of_hex [] = Some []"
| "bytes_of_hex [c] = None"
| "bytes_of_hex (h # l # rest) =
     (case (hex_value h, hex_value l, bytes_of_hex rest) of
        (Some a, Some b, Some bs) \<Rightarrow> Some (of_nat (16 * a + b) # bs)
      | _ \<Rightarrow> None)"

text \<open>
  The object the response holds for a file that succeeded, and for a file that failed.
\<close>

definition success_object :: "env \<Rightarrow> FileHeader \<Rightarrow> gin_H \<Rightarrow> bool" where
  "success_object env file r \<longleftrightarrow>
     dom r = {''filename'', ''message'', ''sha256sum''} \<and>
     r ''filename'' = Some (Filename file) \<and>
     r ''message'' = Some ''File uploaded successfully'' \<and>
     r ''sha256sum'' = Some (EncodeToString (Sum256 env (Content file)))"

definition failure_object :: "FileHeader \<Rightarrow> gin_H \<Rightarrow> bool" where
  "failure_object file r \<longleftrightarrow>
     dom r = {''filename'', ''error''} \<and> r ''filename'' = Some (Filename file)"

subsection \<open>Sample inputs\<close>

text \<open>
  A small environment to run the program in: a sniffer that knows the signatures of
  JPEG and PNG, a one-byte checksum in the place of SHA-256, and a toy codec whose files
  are a signature, a width byte, a height byte and the pixels.
\<close>

definition jpeg_magic :: "byte list" where
  "jpeg_magic = [0xFF, 0xD8, 0xFF]"

definition png_magic :: "byte list" where
  "png_magic = [0x89, 0x50, 0x4E, 0x47, 0x0D, 0x0A, 0x1A, 0x0A]"

definition sample_detect :: "byte list \<Rightarrow> string" where
  "sample_detect data =
     (if take 3 data = jpeg_magic then ''image/jpeg''
      else if take 8 data = png_magic then ''image/png''
      else ''application/octet-stream'')"

definition sample_payload :: "byte list \<Rightarrow> byte list option" where
  "sample_payload data =
     (if take 3 data = jpeg_magic then Some (drop 3 data)
      else if take 8 data = png_magic then Some (drop 8 data)
      else None)"

definition sample_decode :: "byte list \<Rightarrow> image option" where
  "sample_decode data =
     (case sample_payload data of
        Some (w # h # pix) \<Rightarrow> Some \<lparr>Dx = uint w, Dy = uint h, Pix = pix\<rparr>
      | _ \<Rightarrow> None)"

definition sample_encode :: "Format \<Rightarrow> image \<Rightarrow> byte list option" where
  "sample_encode f img =
     (case f of
        JPEG \<Rightarrow> Some (jpeg_magic @ [word_of_int (Dx img), word_of_int (Dy img)] @ Pix img)
      | PNG \<Rightarrow> Some (png_magic @ [word_of_int (Dx img), word_of_int (Dy img)] @ Pix img)
      | _ \<Rightarrow> None)"

definition sample_env :: env where
  "sample_env =
     \<lparr>DetectContentType = sample_detect,
      Sum256 = (\<lambda>bs. [sum_list bs]),
      Decode = sample_decode,
      DecodeConfig = (\<lambda>bs. map_option (\<lambda>img. (Dx img, Dy img)) (sample_decode bs)),
      Resample = (\<lambda>img w h. []),
      Encode = sample_encode,
      FormatTime = (\<lambda>t. replicate (nat t) (CHR ''I''))\<rparr>"

text \<open>
  Uploads, each with the size of its content: a 10 by 10 JPEG, the same bytes under two
  other names, a 200 by 100 PNG, a text file named like a JPEG, an empty file, and a
  file of one byte more than the limit.
\<close>

definition red10 :: FileHeader where
  "red10 = \<lparr>Filename = ''red.jpg'', Size = 6, Content = jpeg_magic @ [10, 10, 0xE0]\<rparr>"

definition other_name :: FileHeader where
  "other_name = \<lparr>Filename = ''holiday.jpeg'', Size = 6, Content = jpeg_magic @ [10, 10, 0xE0]\<rparr>"

definition sunset :: FileHeader where
  "sunset = \<lparr>Filename = ''sunset.jpg'', Size = 6, Content = jpeg_magic @ [10, 10, 0xE0]\<rparr>"

definition wide_png :: FileHeader where
  "wide_png = \<lparr>Filename = ''wide.png'', Size = 11, Content = png_magic @ [200, 100, 0x07]\<rparr>"

definition note_txt :: FileHeader where
  "note_txt = \<lparr>Filename = ''note.jpg'', Size = 5, Content = [0x68, 0x65, 0x6C, 0x6C, 0x6F]\<rparr>"

definition empty_upload :: FileHeader where
  "empty_upload = \<lparr>Filename = ''empty.jpg'', Size = 0, Content = []\<rparr>"

definition oversize :: FileHeader where
  "oversize = \<lparr>Filename = ''big.png'', Size = maxUploadSize + 1,
                Content = replicate (nat (maxUploadSize + 1)) 0\<rparr>"

text \<open>
  Conditions: \<open>calm\<close>, under which nothing fails and nobody else writes; \<open>later\<close>,
  the same at a later time; and \<open>racing\<close>, under which another request uploads the
  bytes of \<open>red10\<close> between this request's duplicate lookup and its first write.
\<close>

definition calm :: conditions where
  "calm =
     \<lparr>open_err = None, read_err = False, hash_err = False, exists_err = False,
      concurrent = (\<lambda>s. s), create_err = False, write_err = None,
      imaging_open_err = False, imaging_save_err = False, os_open_err = False,
      exec_err = False, current_timestamp = 1000\<rparr>"

definition later :: conditions where
  "later = calm\<lparr>current_timestamp := 2000\<rparr>"

definition racing :: conditions where
  "racing = calm\<lparr>concurrent := (\<lambda>s. snd (snd (processFile sample_env calm s other_name)))\<rparr>"

text \<open>
  States: nothing stored; what two uploads leave whose inserts carry the same
  timestamp; what two uploads at different times leave.
\<close>

definition empty_state :: state where
  "empty_state = \<lparr>files = Map.empty, rows = [], images_id_seq = 0\<rparr>"

definition tied_state :: state where
  "tied_state = snd (snd (uploadLoop sample_env (\<lambda>i. calm) empty_state [red10, wide_png] []))"

definition spaced_state :: state where
  "spaced_state =
     snd (snd (uploadLoop sample_env (\<lambda>i. if i = 0 then calm else later) empty_state
                 [red10, wide_png] []))"

text \<open>Forms: a text file followed by a good file, two good files, and a text file
  between two good files.\<close>

definition note_then_red :: Form where
  "note_then_red = \<lparr>File = (\<lambda>k. if k = ''file'' then [note_txt, red10] else [])\<rparr>"

definition red_then_wide :: Form where
  "red_then_wide = \<lparr>File = (\<lambda>k. if k = ''file'' then [red10, wide_png] else [])\<rparr>"

definition red_then_note_then_wide :: Form where
  "red_then_note_then_wide =
     \<lparr>File = (\<lambda>k. if k = ''file'' then [red10, note_txt, wide_png] else [])\<rparr>"

text \<open>
  A query under which nothing fails and the server leaves rows of equal
  \<open>upload_date\<close> in the order of their ids.
\<close>

definition quiet :: query_conditions where
  "quiet = \<lparr>query_err = False, tie_order = (\<lambda>r. nat (col_id r)), scan_err = None,
            rows_err = False\<rparr>"

section \<open>Properties\<close>

subsection \<open>Hex digits, extensions and base names\<close>

text \<open>
  A hex string holds neither a dot nor a slash, and an extension holds no slash and no
  dot but its first character. So the name of the thumbnail, which the program gets by
  cutting the extension off the stored name, is the digest followed by \<open>.jpg\<close>.
\<close>

lemma hex_nibble_high: "unat (drop_bit 4 (v :: byte)) < 16"
proof -
  have "unat (drop_bit 4 v) = drop_bit 4 (unat v)"
    by (simp add: unat_drop_bit_eq)
  also have "\<dots> = unat v div 2 ^ 4"
    by (rule drop_bit_eq_div)
  finally have "unat (drop_bit 4 v) = unat v div 2 ^ 4" .
  moreover have "unat v < 256"
    using unsigned_less [of v, where ?'a = nat] by simp
  ultimately show ?thesis by simp
qed

lemma hex_nibble_low: "unat ((v :: byte) AND 0x0f) < 16"
proof -
  have "v AND 0x0f \<le> 0x0f"
    by (rule word_and_le1)
  then show ?thesis
    by (simp add: word_le_nat_alt)
qed

lemma hextable_nth: "i < 16 \<Longrightarrow> hextable ! i \<in> set hextable"
  by (rule nth_mem) (simp add: hextable_def)

lemma EncodeToString_chars: "set (EncodeToString bs) \<subseteq> set hextable"
  by (induction bs) (auto simp: hextable_nth hex_nibble_high hex_nibble_low)

lemma EncodeToString_no_dot: "CHR ''.'' \<notin> set (EncodeToString bs)"
  using EncodeToString_chars [of bs] by (auto simp: hextable_def)

lemma EncodeToString_no_slash: "CHR ''/'' \<notin> set (EncodeToString bs)"
  using EncodeToString_chars [of bs] by (auto simp: hextable_def)

lemma ext_scan_plain:
  "CHR ''.'' \<notin> set xs \<Longrightarrow> ext_scan xs passed = []"
  by (induction xs arbitrary: passed) auto

lemma ext_scan_dot:
  "CHR ''.'' \<notin> set xs \<Longrightarrow> CHR ''/'' \<notin> set xs \<Longrightarrow>
   ext_scan (xs @ CHR ''.'' # ys) passed = CHR ''.'' # rev xs @ passed"
  by (induction xs arbitrary: passed) auto

lemma ext_scan_shape:
  "ext_scan xs passed = [] \<or>
   (\<exists>pre. ext_scan xs passed = CHR ''.'' # rev pre @ passed \<and>
          CHR ''.'' \<notin> set pre \<and> CHR ''/'' \<notin> set pre)"
proof (induction xs arbitrary: passed)
  case Nil
  show ?case by simp
next
  case (Cons c xs)
  show ?case
  proof (cases "c = CHR ''/'' \<or> c = CHR ''.''")
    case True
    then show ?thesis by (auto intro: exI [of _ "[]"])
  next
    case False
    from Cons.IH [of "c # passed"] show ?thesis
    proof
      assume "ext_scan xs (c # passed) = []"
      with False show ?thesis by simp
    next
      assume "\<exists>pre. ext_scan xs (c # passed) = CHR ''.'' # rev pre @ c # passed \<and>
          CHR ''.'' \<notin> set pre \<and> CHR ''/'' \<notin> set pre"
      then obtain pre where p: "ext_scan xs (c # passed) = CHR ''.'' # rev pre @ c # passed"
        "CHR ''.'' \<notin> set pre" "CHR ''/'' \<notin> set pre" by blast
      with False have "ext_scan (c # xs) passed = CHR ''.'' # rev (c # pre) @ passed \<and>
          CHR ''.'' \<notin> set (c # pre) \<and> CHR ''/'' \<notin> set (c # pre)" by auto
      then show ?thesis by blast
    qed
  qed
qed

lemma Ext_shape:
  "Ext p = [] \<or> (\<exists>t. Ext p = CHR ''.'' # t \<and> CHR ''.'' \<notin> set t \<and> CHR ''/'' \<notin> set t)"
  using ext_scan_shape [of "rev p" "[]"] unfolding Ext_def by auto

lemma Ext_no_slash: "CHR ''/'' \<notin> set (Ext p)"
  using Ext_shape [of p] by auto

lemma Ext_append_Ext:
  assumes "CHR ''.'' \<notin> set d" "CHR ''/'' \<notin> set d"
  shows "Ext (d @ Ext u) = Ext u"
proof -
  from Ext_shape [of u] show ?thesis
  proof
    assume "Ext u = []"
    with assms show ?thesis by (simp add: Ext_def ext_scan_plain)
  next
    assume "\<exists>t. Ext u = CHR ''.'' # t \<and> CHR ''.'' \<notin> set t \<and> CHR ''/'' \<notin> set t"
    then obtain t where t: "Ext u = CHR ''.'' # t" "CHR ''.'' \<notin> set t" "CHR ''/'' \<notin> set t"
      by blast
    have "Ext (d @ CHR ''.'' # t) = ext_scan (rev t @ CHR ''.'' # rev d) []"
      by (simp add: Ext_def)
    also have "\<dots> = CHR ''.'' # t"
      using t by (simp add: ext_scan_dot)
    finally show ?thesis using t by simp
  qed
qed

lemma Base_plain: "p \<noteq> [] \<Longrightarrow> CHR ''/'' \<notin> set p \<Longrightarrow> Base p = p"
proof -
  assume ne: "p \<noteq> []" and ns: "CHR ''/'' \<notin> set p"
  have d: "dropWhile (\<lambda>c. c = CHR ''/'') (rev p) = rev p"
    using ne ns by (cases "rev p") auto
  have t: "takeWhile (\<lambda>c. c \<noteq> CHR ''/'') (rev p) = rev p"
    using ns by auto
  show ?thesis using ne by (simp add: Base_def d t Let_def)
qed

lemma thumbnail_name:
  assumes "CHR ''.'' \<notin> set d" "CHR ''/'' \<notin> set d"
  shows "take (length (Base (d @ Ext u)) - length (Ext (Base (d @ Ext u)))) (Base (d @ Ext u))
           @ ''.jpg'' = d @ ''.jpg''"
proof (cases "d @ Ext u = []")
  case True
  then show ?thesis by (simp add: Base_def Ext_def)
next
  case False
  have "CHR ''/'' \<notin> set (d @ Ext u)"
    using assms Ext_no_slash [of u] by simp
  with False have b: "Base (d @ Ext u) = d @ Ext u"
    by (rule Base_plain)
  show ?thesis
    by (simp add: b Ext_append_Ext [OF assms])
qed

lemma Ext_jpg: "Ext (x @ ''.jpg'') = ''.jpg''"
  by (simp add: Ext_def)

lemma Format_jpg: "FormatFromFilename (Join dir (x @ ''.jpg'')) = Inr JPEG"
  by (simp add: FormatFromFilename_def Join_def Ext_jpg FormatFromExtension_def
        TrimPrefix_def ToLower_def)

subsection \<open>The stages of the pipeline\<close>

text \<open>What a stage that succeeded has done to the state.\<close>

lemma saveFile_None:
  assumes "saveFile cnd s src filename = (None, s1)"
  shows "s1 = s\<lparr>files := (files s)(Join uploadDir filename \<mapsto> src)\<rparr>"
  using assms by (auto simp: saveFile_def split: if_splits option.splits)

lemma Save_None:
  assumes "Save env cnd s img (Join thumbnailDir (x @ ''.jpg'')) = (None, s')"
  shows "\<exists>out. Encode env JPEG img = Some out \<and>
           s' = s\<lparr>files := (files s)(Join thumbnailDir (x @ ''.jpg'') \<mapsto> out)\<rparr>"
  using assms by (auto simp: Save_def Format_jpg split: if_splits option.splits)

lemma generateThumbnail_Inr:
  assumes "generateThumbnail env cnd s filename = (Inr t, s')"
  shows "\<exists>bs img out.
           files s (Join uploadDir filename) = Some bs \<and> Decode env bs = Some img \<and>
           t = take (length (Base filename) - length (Ext (Base filename))) (Base filename) @ ''.jpg'' \<and>
           Encode env JPEG (Thumbnail env img 120 120) = Some out \<and>
           s' = s\<lparr>files := (files s)(Join thumbnailDir t \<mapsto> out)\<rparr>"
proof (cases "imaging_open_err cnd")
  case True
  with assms show ?thesis by (simp add: generateThumbnail_def)
next
  case no: False
  let ?t = "take (length (Base filename) - length (Ext (Base filename))) (Base filename) @ ''.jpg''"
  show ?thesis
  proof (cases "files s (Join uploadDir filename)")
    case None
    with no assms show ?thesis by (simp add: generateThumbnail_def)
  next
    case f: (Some bs)
    show ?thesis
    proof (cases "Decode env bs")
      case None
      with no f assms show ?thesis by (simp add: generateThumbnail_def)
    next
      case d: (Some img)
      obtain eo s2 where
        sv: "Save env cnd s (Thumbnail env img 120 120) (Join thumbnailDir ?t) = (eo, s2)"
        by (cases "Save env cnd s (Thumbnail env img 120 120) (Join thumbnailDir ?t)")
      from assms no f d sv have r: "eo = None \<and> s2 = s' \<and> t = ?t"
        by (cases eo) (simp_all add: generateThumbnail_def Let_def)
      with sv have "Save env cnd s (Thumbnail env img 120 120) (Join thumbnailDir ?t) = (None, s')"
        by simp
      from Save_None [OF this] f d r show ?thesis by auto
    qed
  qed
qed

lemma saveToDatabase_None:
  assumes "saveToDatabase env cnd s filename t d = (None, s')"
  shows "\<exists>bs w h.
           files s (Join uploadDir filename) = Some bs \<and> DecodeConfig env bs = Some (w, h) \<and>
           d \<notin> set (map col_sha256sum (rows s)) \<and>
           s' = s\<lparr>images_id_seq := images_id_seq s + 1,
                  rows := rows s @
                    [\<lparr>col_id = images_id_seq s + 1, col_filename = filename,
                      col_thumbnail_filename = t, col_width = w, col_height = h,
                      col_sha256sum = d, col_upload_date = current_timestamp cnd\<rparr>]\<rparr>"
  using assms
  by (auto simp: saveToDatabase_def Exec_insert_def Let_def
        split: if_splits option.splits prod.splits)

subsection \<open>The outcomes of \<open>processFile\<close>\<close>

text \<open>
  One lemma per \<open>return\<close> of the source, then the case distinction over all of
  them, then what a successful upload leaves behind.
\<close>

lemma processFile_too_large:
  "Size file > maxUploadSize \<Longrightarrow>
   processFile env cnd s file = ([''error'' \<mapsto> ''File too large''], StatusBadRequest, s)"
  by (simp add: processFile_def)

lemma processFile_open_err:
  "Size file \<le> maxUploadSize \<Longrightarrow> open_err cnd = Some msg \<Longrightarrow>
   processFile env cnd s file = ([''error'' \<mapsto> msg], StatusInternalServerError, s)"
  by (simp add: processFile_def)

lemma processFile_read_err:
  "Size file \<le> maxUploadSize \<Longrightarrow> open_err cnd = None \<Longrightarrow>
   Read cnd (Content file) 512 = Inl e \<Longrightarrow>
   processFile env cnd s file =
     ([''error'' \<mapsto> ''Failed to read file''], StatusInternalServerError, s)"
  by (simp add: processFile_def)

lemma processFile_bad_type:
  "Size file \<le> maxUploadSize \<Longrightarrow> open_err cnd = None \<Longrightarrow>
   Read cnd (Content file) 512 = Inr buff \<Longrightarrow>
   DetectContentType env buff \<noteq> ''image/jpeg'' \<Longrightarrow>
   DetectContentType env buff \<noteq> ''image/png'' \<Longrightarrow>
   processFile env cnd s file =
     ([''error'' \<mapsto> ''File type not allowed. Only JPG and PNG are allowed.''],
      StatusBadRequest, s)"
  by (simp add: processFile_def)

lemma processFile_hash_err:
  "Size file \<le> maxUploadSize \<Longrightarrow> open_err cnd = None \<Longrightarrow>
   Read cnd (Content file) 512 = Inr buff \<Longrightarrow>
   DetectContentType env buff = ''image/jpeg'' \<or> DetectContentType env buff = ''image/png'' \<Longrightarrow>
   hash_err cnd \<Longrightarrow>
   processFile env cnd s file =
     ([''error'' \<mapsto> ''Failed to generate SHA-256''], StatusInternalServerError, s)"
  by (auto simp: processFile_def)

lemma processFile_exists_err:
  "Size file \<le> maxUploadSize \<Longrightarrow> open_err cnd = None \<Longrightarrow>
   Read cnd (Content file) 512 = Inr buff \<Longrightarrow>
   DetectContentType env buff = ''image/jpeg'' \<or> DetectContentType env buff = ''image/png'' \<Longrightarrow>
   \<not> hash_err cnd \<Longrightarrow>
   QueryRow_exists cnd s (EncodeToString (Sum256 env (Content file))) = Inl e \<Longrightarrow>
   processFile env cnd s file =
     ([''error'' \<mapsto> ''Database error''], StatusInternalServerError, s)"
  by (auto simp: processFile_def)

lemma processFile_duplicate:
  "Size file \<le> maxUploadSize \<Longrightarrow> open_err cnd = None \<Longrightarrow>
   Read cnd (Content file) 512 = Inr buff \<Longrightarrow>
   DetectContentType env buff = ''image/jpeg'' \<or> DetectContentType env buff = ''image/png'' \<Longrightarrow>
   \<not> hash_err cnd \<Longrightarrow>
   QueryRow_exists cnd s (EncodeToString (Sum256 env (Content file))) = Inr True \<Longrightarrow>
   processFile env cnd s file =
     ([''error'' \<mapsto> ''File already exists''], StatusConflict, s)"
  by (auto simp: processFile_def)

lemma processFile_save_err:
  "past_check env cnd s file \<Longrightarrow>
   saveFile cnd (concurrent cnd s) (Content file)
     (EncodeToString (Sum256 env (Content file)) @ Ext (Filename file)) = (Some e, s1) \<Longrightarrow>
   processFile env cnd s file =
     ([''error'' \<mapsto> ''Failed to save file''], StatusInternalServerError, s1)"
  by (auto simp: processFile_def past_check_def Let_def)

lemma processFile_thumbnail_err:
  "past_check env cnd s file \<Longrightarrow>
   saveFile cnd (concurrent cnd s) (Content file)
     (EncodeToString (Sum256 env (Content file)) @ Ext (Filename file)) = (None, s1) \<Longrightarrow>
   generateThumbnail env cnd s1
     (EncodeToString (Sum256 env (Content file)) @ Ext (Filename file)) = (Inl e, s2) \<Longrightarrow>
   processFile env cnd s file =
     ([''error'' \<mapsto> ''Failed to generate thumbnail''], StatusInternalServerError, s2)"
  by (auto simp: processFile_def past_check_def Let_def)

lemma processFile_database_err:
  "past_check env cnd s file \<Longrightarrow>
   saveFile cnd (concurrent cnd s) (Content file)
     (EncodeToString (Sum256 env (Content file)) @ Ext (Filename file)) = (None, s1) \<Longrightarrow>
   generateThumbnail env cnd s1
     (EncodeToString (Sum256 env (Content file)) @ Ext (Filename file)) = (Inr t, s2) \<Longrightarrow>
   saveToDatabase env cnd s2
     (EncodeToString (Sum256 env (Content file)) @ Ext (Filename file)) t
     (EncodeToString (Sum256 env (Content file))) = (Some e, s3) \<Longrightarrow>
   processFile env cnd s file =
     ([''error'' \<mapsto> ''Failed to save to database''], StatusInternalServerError, s3)"
  by (auto simp: processFile_def past_check_def Let_def)

lemma processFile_uploaded:
  "past_check env cnd s file \<Longrightarrow>
   saveFile cnd (concurrent cnd s) (Content file)
     (EncodeToString (Sum256 env (Content file)) @ Ext (Filename file)) = (None, s1) \<Longrightarrow>
   generateThumbnail env cnd s1
     (EncodeToString (Sum256 env (Content file)) @ Ext (Filename file)) = (Inr t, s2) \<Longrightarrow>
   saveToDatabase env cnd s2
     (EncodeToString (Sum256 env (Content file)) @ Ext (Filename file)) t
     (EncodeToString (Sum256 env (Content file))) = (None, s3) \<Longrightarrow>
   processFile env cnd s file =
     ([''message'' \<mapsto> ''File uploaded successfully'',
       ''sha256sum'' \<mapsto> EncodeToString (Sum256 env (Content file))], StatusOK, s3)"
  by (auto simp: processFile_def past_check_def Let_def)

lemma processFile_cases:
  obtains
    (TooLarge) "Size file > maxUploadSize"
      "processFile env cnd s file = ([''error'' \<mapsto> ''File too large''], StatusBadRequest, s)"
  | (OpenErr) msg where "Size file \<le> maxUploadSize" "open_err cnd = Some msg"
      "processFile env cnd s file = ([''error'' \<mapsto> msg], StatusInternalServerError, s)"
  | (ReadErr) e where "Size file \<le> maxUploadSize" "open_err cnd = None"
      "Read cnd (Content file) 512 = Inl e"
      "processFile env cnd s file =
         ([''error'' \<mapsto> ''Failed to read file''], StatusInternalServerError, s)"
  | (BadType) buff where "Size file \<le> maxUploadSize" "open_err cnd = None"
      "Read cnd (Content file) 512 = Inr buff"
      "DetectContentType env buff \<noteq> ''image/jpeg''"
      "DetectContentType env buff \<noteq> ''image/png''"
      "processFile env cnd s file =
         ([''error'' \<mapsto> ''File type not allowed. Only JPG and PNG are allowed.''],
          StatusBadRequest, s)"
  | (HashErr)
      "processFile env cnd s file =
         ([''error'' \<mapsto> ''Failed to generate SHA-256''], StatusInternalServerError, s)"
  | (ExistsErr)
      "processFile env cnd s file =
         ([''error'' \<mapsto> ''Database error''], StatusInternalServerError, s)"
  | (Duplicate)
      "EncodeToString (Sum256 env (Content file)) \<in> set (map col_sha256sum (rows s))"
      "processFile env cnd s file =
         ([''error'' \<mapsto> ''File already exists''], StatusConflict, s)"
  | (SaveErr) s1 where "past_check env cnd s file"
      "processFile env cnd s file =
         ([''error'' \<mapsto> ''Failed to save file''], StatusInternalServerError, s1)"
  | (ThumbnailErr) s2 where "past_check env cnd s file"
      "processFile env cnd s file =
         ([''error'' \<mapsto> ''Failed to generate thumbnail''], StatusInternalServerError, s2)"
  | (DatabaseErr) s3 where "past_check env cnd s file"
      "processFile env cnd s file =
         ([''error'' \<mapsto> ''Failed to save to database''], StatusInternalServerError, s3)"
  | (Uploaded) s1 s2 s3 t where "past_check env cnd s file"
      "saveFile cnd (concurrent cnd s) (Content file)
         (EncodeToString (Sum256 env (Content file)) @ Ext (Filename file)) = (None, s1)"
      "generateThumbnail env cnd s1
         (EncodeToString (Sum256 env (Content file)) @ Ext (Filename file)) = (Inr t, s2)"
      "saveToDatabase env cnd s2
         (EncodeToString (Sum256 env (Content file)) @ Ext (Filename file)) t
         (EncodeToString (Sum256 env (Content file))) = (None, s3)"
      "processFile env cnd s file =
         ([''message'' \<mapsto> ''File uploaded successfully'',
           ''sha256sum'' \<mapsto> EncodeToString (Sum256 env (Content file))], StatusOK, s3)"
proof (cases "Size file > maxUploadSize")
  case True
  then show ?thesis using TooLarge processFile_too_large by blast
next
  case False
  then have sz: "Size file \<le> maxUploadSize" by simp
  show ?thesis
  proof (cases "open_err cnd")
    case (Some msg)
    with sz show ?thesis using OpenErr processFile_open_err by blast
  next
    case op: None
    show ?thesis
    proof (cases "Read cnd (Content file) 512")
      case (Inl e)
      with sz op show ?thesis using ReadErr processFile_read_err by blast
    next
      case rd: (Inr buff)
      show ?thesis
      proof (cases "DetectContentType env buff = ''image/jpeg'' \<or>
                    DetectContentType env buff = ''image/png''")
        case False
        then have "DetectContentType env buff \<noteq> ''image/jpeg''"
          and "DetectContentType env buff \<noteq> ''image/png''" by simp_all
        from sz op rd this processFile_bad_type [OF sz op rd this] show ?thesis
          by (rule BadType)
      next
        case ty: True
        show ?thesis
        proof (cases "hash_err cnd")
          case True
          from processFile_hash_err [OF sz op rd ty True] show ?thesis by (rule HashErr)
        next
          case hs: False
          let ?d = "EncodeToString (Sum256 env (Content file))"
          show ?thesis
          proof (cases "QueryRow_exists cnd s ?d")
            case (Inl e)
            from processFile_exists_err [OF sz op rd ty hs Inl] show ?thesis by (rule ExistsErr)
          next
            case (Inr exists)
            show ?thesis
            proof (cases exists)
              case True
              with Inr have q: "QueryRow_exists cnd s ?d = Inr True" by simp
              then have "?d \<in> set (map col_sha256sum (rows s))"
                by (simp add: QueryRow_exists_def split: if_splits)
              with processFile_duplicate [OF sz op rd ty hs q] show ?thesis by (rule Duplicate [rotated])
            next
              case False
              with Inr sz op rd ty hs have pc: "past_check env cnd s file"
                unfolding past_check_def by auto
              let ?fn = "?d @ Ext (Filename file)"
              obtain eo s1 where sf: "saveFile cnd (concurrent cnd s) (Content file) ?fn = (eo, s1)"
                by (cases "saveFile cnd (concurrent cnd s) (Content file) ?fn")
              show ?thesis
              proof (cases eo)
                case (Some e)
                with sf processFile_save_err [OF pc] pc show ?thesis using SaveErr by blast
              next
                case None
                with sf have sf': "saveFile cnd (concurrent cnd s) (Content file) ?fn = (None, s1)"
                  by simp
                obtain tr s2 where gt: "generateThumbnail env cnd s1 ?fn = (tr, s2)"
                  by (cases "generateThumbnail env cnd s1 ?fn")
                show ?thesis
                proof (cases tr)
                  case (Inl e)
                  with gt processFile_thumbnail_err [OF pc sf'] pc show ?thesis
                    using ThumbnailErr by blast
                next
                  case (Inr t)
                  with gt have gt': "generateThumbnail env cnd s1 ?fn = (Inr t, s2)" by simp
                  obtain de s3 where db: "saveToDatabase env cnd s2 ?fn t ?d = (de, s3)"
                    by (cases "saveToDatabase env cnd s2 ?fn t ?d")
                  show ?thesis
                  proof (cases de)
                    case (Some e)
                    with db processFile_database_err [OF pc sf' gt'] pc show ?thesis
                      using DatabaseErr by blast
                  next
                    case None
                    with db have db': "saveToDatabase env cnd s2 ?fn t ?d = (None, s3)" by simp
                    from pc sf' gt' db' processFile_uploaded [OF pc sf' gt' db']
                    show ?thesis by (rule Uploaded)
                  qed
                qed
              qed
            qed
          qed
        qed
      qed
    qed
  qed
qed

lemma processFile_OK:
  assumes "processFile env cnd s file = (r, StatusOK, s')"
  shows "\<exists>img out w h.
     past_check env cnd s file \<and>
     r = [''message'' \<mapsto> ''File uploaded successfully'',
          ''sha256sum'' \<mapsto> EncodeToString (Sum256 env (Content file))] \<and>
     Decode env (Content file) = Some img \<and>
     Encode env JPEG (Thumbnail env img 120 120) = Some out \<and>
     DecodeConfig env (Content file) = Some (w, h) \<and>
     EncodeToString (Sum256 env (Content file))
        \<notin> set (map col_sha256sum (rows (concurrent cnd s))) \<and>
     files s' = (files (concurrent cnd s))
        (Join uploadDir (EncodeToString (Sum256 env (Content file)) @ Ext (Filename file))
           \<mapsto> Content file,
         Join thumbnailDir (EncodeToString (Sum256 env (Content file)) @ ''.jpg'') \<mapsto> out) \<and>
     images_id_seq s' = images_id_seq (concurrent cnd s) + 1 \<and>
     rows s' = rows (concurrent cnd s) @
        [\<lparr>col_id = images_id_seq (concurrent cnd s) + 1,
          col_filename = EncodeToString (Sum256 env (Content file)) @ Ext (Filename file),
          col_thumbnail_filename = EncodeToString (Sum256 env (Content file)) @ ''.jpg'',
          col_width = w, col_height = h,
          col_sha256sum = EncodeToString (Sum256 env (Content file)),
          col_upload_date = current_timestamp cnd\<rparr>]"
proof (cases rule: processFile_cases [of "file" env cnd s])
  case (Uploaded s1 s2 s3 t)
  let ?d = "EncodeToString (Sum256 env (Content file))"
  let ?fn = "?d @ Ext (Filename file)"
  let ?s0 = "concurrent cnd s"
  from Uploaded(5) assms have s3: "s3 = s'" and r: "r = [''message'' \<mapsto> ''File uploaded successfully'',
          ''sha256sum'' \<mapsto> ?d]" by simp_all
  from saveFile_None [OF Uploaded(2)]
  have s1: "s1 = ?s0\<lparr>files := (files ?s0)(Join uploadDir ?fn \<mapsto> Content file)\<rparr>" .
  from generateThumbnail_Inr [OF Uploaded(3)] obtain bs img out where
    g: "files s1 (Join uploadDir ?fn) = Some bs" "Decode env bs = Some img"
       "t = take (length (Base ?fn) - length (Ext (Base ?fn))) (Base ?fn) @ ''.jpg''"
       "Encode env JPEG (Thumbnail env img 120 120) = Some out"
       "s2 = s1\<lparr>files := (files s1)(Join thumbnailDir t \<mapsto> out)\<rparr>"
    by blast
  from g(1) s1 have bs: "bs = Content file" by simp
  from g(3) have t: "t = ?d @ ''.jpg''"
    by (simp only: thumbnail_name [OF EncodeToString_no_dot EncodeToString_no_slash])
  from saveToDatabase_None [OF Uploaded(4)] obtain bs' w h where
    d: "files s2 (Join uploadDir ?fn) = Some bs'" "DecodeConfig env bs' = Some (w, h)"
       "?d \<notin> set (map col_sha256sum (rows s2))"
       "s3 = s2\<lparr>images_id_seq := images_id_seq s2 + 1,
                  rows := rows s2 @
                    [\<lparr>col_id = images_id_seq s2 + 1, col_filename = ?fn,
                      col_thumbnail_filename = t, col_width = w, col_height = h,
                      col_sha256sum = ?d, col_upload_date = current_timestamp cnd\<rparr>]\<rparr>"
    by blast
  have ne: "Join thumbnailDir t \<noteq> Join uploadDir ?fn"
    by (simp add: Join_def thumbnailDir_def uploadDir_def)
  from d(1) g(5) s1 ne have bs': "bs' = Content file" by (simp add: fun_upd_def)
  have "files s' = (files ?s0)(Join uploadDir ?fn \<mapsto> Content file,
         Join thumbnailDir (?d @ ''.jpg'') \<mapsto> out)"
    using s3 d(4) g(5) s1 t by auto
  moreover have "images_id_seq s' = images_id_seq ?s0 + 1"
    using s3 d(4) g(5) s1 by auto
  moreover have "rows s' = rows ?s0 @
        [\<lparr>col_id = images_id_seq ?s0 + 1, col_filename = ?fn,
          col_thumbnail_filename = ?d @ ''.jpg'', col_width = w, col_height = h,
          col_sha256sum = ?d, col_upload_date = current_timestamp cnd\<rparr>]"
    using s3 d(4) g(5) s1 t by auto
  moreover have "?d \<notin> set (map col_sha256sum (rows ?s0))"
    using d(3) g(5) s1 by simp
  ultimately show ?thesis
    using Uploaded(1) r g(2) g(4) d(2) bs bs' by blast
qed (use assms in simp_all)

lemma Read_Inr:
  "src \<noteq> [] \<Longrightarrow> \<not> read_err cnd \<Longrightarrow>
   Read cnd src n = Inr (take n src @ replicate (n - length (take n src)) 0)"
  by (simp add: Read_def)

lemma Read_Inr_D:
  "Read cnd src n = Inr buff \<Longrightarrow>
   src \<noteq> [] \<and> buff = take n src @ replicate (n - length (take n src)) 0"
  by (simp add: Read_def split: if_splits)

lemma triple_collapse: "fst (snd p) = c \<Longrightarrow> p = (fst p, c, snd (snd p))"
  by (cases p) auto


subsection \<open>Empty and rejected uploads\<close>

text \<open>
  Claim C10. A zero-byte upload is answered with status 500, not 400: the one
  \<open>Read\<close> into the 512-byte buffer returns \<open>io.EOF\<close>, so (when the file opens)
  the response is "Failed to read file". Nothing is written: the state is unchanged.
\<close>

theorem empty_file_is_internal_error:
  assumes "Content file = []" and "Size file = 0"
  shows "fst (snd (processFile env cnd s file)) = StatusInternalServerError \<and>
         snd (snd (processFile env cnd s file)) = s \<and>
         Read cnd (Content file) 512 = Inl EOF \<and>
         (open_err cnd = None \<longrightarrow>
            fst (processFile env cnd s file) = [''error'' \<mapsto> ''Failed to read file''])"
proof -
  from assms(2) have sz: "Size file \<le> maxUploadSize"
    by (simp add: maxUploadSize_def)
  from assms(1) have rd: "Read cnd (Content file) 512 = Inl EOF"
    by (simp add: Read_def)
  show ?thesis
  proof (cases "open_err cnd")
    case None
    from processFile_read_err [OF sz None rd] rd None show ?thesis by simp
  next
    case (Some msg)
    from processFile_open_err [OF sz Some] rd Some show ?thesis by simp
  qed
qed

theorem empty_file_is_internal_error_witness:
  "fst (snd (processFile sample_env calm empty_state empty_upload)) = StatusInternalServerError \<and>
   snd (snd (processFile sample_env calm empty_state empty_upload)) = empty_state \<and>
   fst (processFile sample_env calm empty_state empty_upload) ''error''
     = Some ''Failed to read file''"
  using empty_file_is_internal_error [of empty_upload sample_env calm empty_state]
  by (simp add: empty_upload_def calm_def)

text \<open>
  Claim C4, as amended. An oversize upload is answered with status 400 whatever the
  file holds and whatever the conditions are (the size check precedes every I/O). An
  upload within the limit that opens, is not empty, is read without fault and whose
  leading 512 bytes (zero-padded) sniff as neither \<open>image/jpeg\<close> nor \<open>image/png\<close>
  is answered with status 400. And an upload that is oversize, or whose leading bytes
  sniff as neither type, leaves the state unchanged under all conditions: no file in
  either directory, no row.
\<close>

theorem rejected_uploads_write_nothing:
  "(Size file > maxUploadSize \<longrightarrow>
      processFile env cnd s file =
        ([''error'' \<mapsto> ''File too large''], StatusBadRequest, s)) \<and>
   (Size file \<le> maxUploadSize \<and> open_err cnd = None \<and> \<not> read_err cnd \<and>
    Content file \<noteq> [] \<and>
    DetectContentType env
      (take 512 (Content file) @ replicate (512 - length (take 512 (Content file))) 0)
        \<noteq> ''image/jpeg'' \<and>
    DetectContentType env
      (take 512 (Content file) @ replicate (512 - length (take 512 (Content file))) 0)
        \<noteq> ''image/png'' \<longrightarrow>
      processFile env cnd s file =
        ([''error'' \<mapsto> ''File type not allowed. Only JPG and PNG are allowed.''],
         StatusBadRequest, s)) \<and>
   (Size file > maxUploadSize \<or>
    DetectContentType env
      (take 512 (Content file) @ replicate (512 - length (take 512 (Content file))) 0)
        \<noteq> ''image/jpeg'' \<and>
    DetectContentType env
      (take 512 (Content file) @ replicate (512 - length (take 512 (Content file))) 0)
        \<noteq> ''image/png'' \<longrightarrow>
      snd (snd (processFile env cnd s file)) = s)"
proof -
  let ?buff = "take 512 (Content file) @ replicate (512 - length (take 512 (Content file))) 0"
  have past: "DetectContentType env ?buff = ''image/jpeg'' \<or>
              DetectContentType env ?buff = ''image/png''"
    and within: "Size file \<le> maxUploadSize"
    if "past_check env cnd s file"
    using that Read_Inr_D [of cnd "Content file" 512] unfolding past_check_def by auto
  have frame: "snd (snd (processFile env cnd s file)) = s"
    if "Size file > maxUploadSize \<or>
        DetectContentType env ?buff \<noteq> ''image/jpeg'' \<and>
        DetectContentType env ?buff \<noteq> ''image/png''"
  proof (cases rule: processFile_cases [of "file" env cnd s])
    case (SaveErr s1)
    with that past within show ?thesis by fastforce
  next
    case (ThumbnailErr s2)
    with that past within show ?thesis by fastforce
  next
    case (DatabaseErr s3)
    with that past within show ?thesis by fastforce
  next
    case (Uploaded s1 s2 s3 t)
    with that past within show ?thesis by fastforce
  qed simp_all
  from frame processFile_too_large [of "file" env cnd s]
    processFile_bad_type [OF _ _ Read_Inr, of "file" cnd env s]
  show ?thesis by blast
qed

theorem rejected_uploads_write_nothing_witness:
  "processFile sample_env calm empty_state oversize =
     ([''error'' \<mapsto> ''File too large''], StatusBadRequest, empty_state) \<and>
   processFile sample_env calm empty_state note_txt =
     ([''error'' \<mapsto> ''File type not allowed. Only JPG and PNG are allowed.''],
      StatusBadRequest, empty_state) \<and>
   snd (snd (processFile sample_env calm empty_state empty_upload)) = empty_state"
proof -
  have big: "Size oversize > maxUploadSize"
    by (simp add: oversize_def)
  have small: "Size note_txt \<le> maxUploadSize \<and> open_err calm = None \<and> \<not> read_err calm \<and>
    Content note_txt \<noteq> [] \<and>
    DetectContentType sample_env
      (take 512 (Content note_txt) @ replicate (512 - length (take 512 (Content note_txt))) 0)
        \<noteq> ''image/jpeg'' \<and>
    DetectContentType sample_env
      (take 512 (Content note_txt) @ replicate (512 - length (take 512 (Content note_txt))) 0)
        \<noteq> ''image/png''"
    by (simp add: note_txt_def calm_def sample_env_def sample_detect_def
          jpeg_magic_def png_magic_def maxUploadSize_def)
  have none: "DetectContentType sample_env
      (take 512 (Content empty_upload) @
       replicate (512 - length (take 512 (Content empty_upload))) 0) \<noteq> ''image/jpeg'' \<and>
    DetectContentType sample_env
      (take 512 (Content empty_upload) @
       replicate (512 - length (take 512 (Content empty_upload))) 0) \<noteq> ''image/png''"
    by code_simp
  from rejected_uploads_write_nothing [of oversize sample_env calm empty_state] big
    rejected_uploads_write_nothing [of note_txt sample_env calm empty_state] small
    rejected_uploads_write_nothing [of empty_upload sample_env calm empty_state] none
  show ?thesis by blast
qed

text \<open>
  Claim C4 as stated fails on the empty file: it is within the limit and sniffs as
  neither accepted type, yet the answer is 500, not 400.
\<close>

theorem empty_upload_is_not_rejected_as_invalid:
  "\<not> Size empty_upload > maxUploadSize \<and>
   DetectContentType sample_env (Content empty_upload) \<noteq> ''image/jpeg'' \<and>
   DetectContentType sample_env (Content empty_upload) \<noteq> ''image/png'' \<and>
   DetectContentType sample_env (replicate 512 0) \<noteq> ''image/jpeg'' \<and>
   DetectContentType sample_env (replicate 512 0) \<noteq> ''image/png'' \<and>
   fst (snd (processFile sample_env calm empty_state empty_upload)) = StatusInternalServerError \<and>
   fst (snd (processFile sample_env calm empty_state empty_upload)) \<noteq> StatusBadRequest"
  by code_simp

subsection \<open>Duplicates\<close>

text \<open>
  Claim C1. After an upload that succeeded, an upload of the same bytes (under any
  name) that stays within the size limit and meets no fault up to the duplicate lookup
  is answered with status 409 "File already exists" and leaves the state as it was: no
  new file, no new row. The table holds exactly one row of that digest.
\<close>

theorem same_bytes_again_is_duplicate:
  assumes first: "processFile env cnd1 s file1 = (r1, StatusOK, s1)"
    and same: "Content file2 = Content file1"
    and size: "Size file2 \<le> maxUploadSize"
    and ok: "open_err cnd2 = None" "\<not> read_err cnd2" "\<not> hash_err cnd2" "\<not> exists_err cnd2"
  shows "processFile env cnd2 s1 file2 =
           ([''error'' \<mapsto> ''File already exists''], StatusConflict, s1) \<and>
         length (filter (\<lambda>r. col_sha256sum r = EncodeToString (Sum256 env (Content file1)))
                   (rows s1)) = 1"
proof -
  let ?d = "EncodeToString (Sum256 env (Content file1))"
  from processFile_OK [OF first] obtain w h where
    pc: "past_check env cnd1 s file1"
    and fresh: "?d \<notin> set (map col_sha256sum (rows (concurrent cnd1 s)))"
    and rs: "rows s1 = rows (concurrent cnd1 s) @
        [\<lparr>col_id = images_id_seq (concurrent cnd1 s) + 1,
          col_filename = ?d @ Ext (Filename file1),
          col_thumbnail_filename = ?d @ ''.jpg'',
          col_width = w, col_height = h,
          col_sha256sum = ?d,
          col_upload_date = current_timestamp cnd1\<rparr>]"
    by blast
  from pc obtain buff where
    rd1: "Read cnd1 (Content file1) 512 = Inr buff"
    and ty: "DetectContentType env buff = ''image/jpeg'' \<or>
             DetectContentType env buff = ''image/png''"
    unfolding past_check_def by blast
  from Read_Inr_D [OF rd1] have ne: "Content file1 \<noteq> []"
    and buff: "buff = take 512 (Content file1) @
                 replicate (512 - length (take 512 (Content file1))) 0"
    by simp_all
  from ne ok(2) same buff have rd2: "Read cnd2 (Content file2) 512 = Inr buff"
    by (simp add: Read_Inr)
  from rs have "?d \<in> set (map col_sha256sum (rows s1))" by simp
  with ok(4) same have q: "QueryRow_exists cnd2 s1 (EncodeToString (Sum256 env (Content file2)))
          = Inr True"
    by (simp add: QueryRow_exists_def)
  have dup: "processFile env cnd2 s1 file2 =
           ([''error'' \<mapsto> ''File already exists''], StatusConflict, s1)"
    by (rule processFile_duplicate [OF size ok(1) rd2 ty ok(3) q])
  from fresh have "filter (\<lambda>r. col_sha256sum r = ?d) (rows (concurrent cnd1 s)) = []"
    unfolding filter_empty_conv by force
  with rs have "length (filter (\<lambda>r. col_sha256sum r = ?d) (rows s1)) = 1"
    by simp
  with dup show ?thesis by simp
qed

theorem same_bytes_again_is_duplicate_witness:
  "processFile sample_env calm
      (snd (snd (processFile sample_env calm empty_state red10))) other_name =
     ([''error'' \<mapsto> ''File already exists''], StatusConflict,
      snd (snd (processFile sample_env calm empty_state red10))) \<and>
   length (filter (\<lambda>r. col_sha256sum r = EncodeToString (Sum256 sample_env (Content red10)))
       (rows (snd (snd (processFile sample_env calm empty_state red10))))) = 1"
proof -
  have run: "processFile sample_env calm empty_state red10 =
      (fst (processFile sample_env calm empty_state red10), StatusOK,
       snd (snd (processFile sample_env calm empty_state red10)))"
    by (rule triple_collapse) code_simp
  have same: "Content other_name = Content red10"
    by (simp add: other_name_def red10_def)
  have size: "Size other_name \<le> maxUploadSize"
    by (simp add: other_name_def maxUploadSize_def)
  show ?thesis
    by (rule same_bytes_again_is_duplicate [OF run same size]) (simp_all add: calm_def)
qed

subsection \<open>The digest\<close>

text \<open>
  The program's \<open>EncodeToString\<close> is hex encoding: it agrees with \<open>hex_of_bytes\<close>,
  which gives two digits per byte and is read back by \<open>bytes_of_hex\<close>.
\<close>

lemma hex_digits_table:
  "list_all (\<lambda>n. hextable ! n = hex_digit n \<and> hex_value (hex_digit n) = Some n) [0..<16]"
  by code_simp

lemma hextable_hex_digit: "n < 16 \<Longrightarrow> hextable ! n = hex_digit n"
  using hex_digits_table by (simp add: list_all_iff)

lemma hex_value_digit: "n < 16 \<Longrightarrow> hex_value (hex_digit n) = Some n"
  using hex_digits_table by (simp add: list_all_iff)

lemma unat_high_nibble: "unat (drop_bit 4 (v :: byte)) = unat v div 16"
proof -
  have "unat (drop_bit 4 v) = drop_bit 4 (unat v)"
    by (simp add: unat_drop_bit_eq)
  also have "\<dots> = unat v div 2 ^ 4"
    by (rule drop_bit_eq_div)
  finally show ?thesis by simp
qed

lemma unat_low_nibble: "unat ((v :: byte) AND 0x0f) = unat v mod 16"
proof -
  have "v AND 0x0f = take_bit 4 v"
    by (simp add: take_bit_eq_mask mask_eq_exp_minus_1)
  then have "unat (v AND 0x0f) = take_bit 4 (unat v)"
    by (simp add: unsigned_take_bit_eq)
  also have "\<dots> = unat v mod 2 ^ 4"
    by (rule take_bit_eq_mod)
  finally show ?thesis by simp
qed

lemma EncodeToString_hex: "EncodeToString bs = hex_of_bytes bs"
proof (induction bs)
  case Nil
  show ?case by simp
next
  case (Cons v bs)
  have h: "unat v div 16 < 16"
    using unsigned_less [of v, where ?'a = nat] by simp
  have l: "unat v mod 16 < 16" by simp
  show ?case
    using Cons hextable_hex_digit [OF h] hextable_hex_digit [OF l]
    by (simp add: unat_high_nibble unat_low_nibble)
qed

lemma hex_of_bytes_length: "length (hex_of_bytes bs) = 2 * length bs"
  by (induction bs) simp_all

lemma bytes_of_hex_of_bytes: "bytes_of_hex (hex_of_bytes bs) = Some bs"
proof (induction bs)
  case Nil
  show ?case by simp
next
  case (Cons v bs)
  have h: "unat v div 16 < 16"
    using unsigned_less [of v, where ?'a = nat] by simp
  have l: "unat v mod 16 < 16" by simp
  have "(of_nat (16 * (unat v div 16) + unat v mod 16) :: byte) = of_nat (unat v)"
    by simp
  then have b: "(of_nat (16 * (unat v div 16) + unat v mod 16) :: byte) = v"
    by simp
  show ?case
    using Cons by (simp add: hex_value_digit [OF h] hex_value_digit [OF l] b)
qed

text \<open>
  Claim C7. The digest that a successful upload reports and stores is the hex encoding
  of the SHA-256 of exactly the bytes of the file: two lower-case hex digits for every
  byte of the hash, from which the hash is read back. Two successful uploads of the
  same bytes report and store the same digest, whatever their declared names, the
  states they start from and the times of their inserts.
\<close>

theorem digest_is_hex_sha256_of_the_bytes:
  assumes "processFile env cnd1 s1 file1 = (r1, StatusOK, t1)"
    and "processFile env cnd2 s2 file2 = (r2, StatusOK, t2)"
    and "Content file2 = Content file1"
  shows "r1 ''sha256sum'' = Some (hex_of_bytes (Sum256 env (Content file1))) \<and>
         col_sha256sum (last (rows t1)) = hex_of_bytes (Sum256 env (Content file1)) \<and>
         (\<exists>digest.
            r1 ''sha256sum'' = Some digest \<and>
            length digest = 2 * length (Sum256 env (Content file1)) \<and>
            set digest \<subseteq> set ''0123456789abcdef'' \<and>
            bytes_of_hex digest = Some (Sum256 env (Content file1))) \<and>
         r2 ''sha256sum'' = r1 ''sha256sum'' \<and>
         col_sha256sum (last (rows t2)) = col_sha256sum (last (rows t1))"
proof -
  let ?h = "Sum256 env (Content file1)"
  from processFile_OK [OF assms(1)] have
    a: "r1 ''sha256sum'' = Some (EncodeToString ?h)"
       "col_sha256sum (last (rows t1)) = EncodeToString ?h"
    by auto
  from processFile_OK [OF assms(2)] have
    b: "r2 ''sha256sum'' = Some (EncodeToString (Sum256 env (Content file2)))"
       "col_sha256sum (last (rows t2)) = EncodeToString (Sum256 env (Content file2))"
    by auto
  have "length (EncodeToString ?h) = 2 * length ?h"
    by (simp add: EncodeToString_hex hex_of_bytes_length)
  moreover have "set (EncodeToString ?h) \<subseteq> set ''0123456789abcdef''"
    using EncodeToString_chars [of ?h] by (simp only: hextable_def)
  moreover have "bytes_of_hex (EncodeToString ?h) = Some ?h"
    by (simp add: EncodeToString_hex bytes_of_hex_of_bytes)
  ultimately have "\<exists>digest.
            r1 ''sha256sum'' = Some digest \<and>
            length digest = 2 * length ?h \<and>
            set digest \<subseteq> set ''0123456789abcdef'' \<and>
            bytes_of_hex digest = Some ?h"
    using a(1) by blast
  with a b assms(3) show ?thesis
    by (simp add: EncodeToString_hex)
qed

theorem digest_is_hex_sha256_of_the_bytes_witness:
  "Sum256 sample_env (Content red10) = [0xCA] \<and>
   fst (processFile sample_env calm empty_state red10) ''sha256sum'' = Some ''ca'' \<and>
   col_sha256sum (last (rows (snd (snd (processFile sample_env calm empty_state red10)))))
     = ''ca'' \<and>
   fst (processFile sample_env later empty_state other_name) ''sha256sum'' = Some ''ca'' \<and>
   col_sha256sum (last (rows (snd (snd (processFile sample_env later empty_state other_name)))))
     = ''ca''"
proof -
  have run1: "processFile sample_env calm empty_state red10 =
      (fst (processFile sample_env calm empty_state red10), StatusOK,
       snd (snd (processFile sample_env calm empty_state red10)))"
    by (rule triple_collapse) code_simp
  have run2: "processFile sample_env later empty_state other_name =
      (fst (processFile sample_env later empty_state other_name), StatusOK,
       snd (snd (processFile sample_env later empty_state other_name)))"
    by (rule triple_collapse) code_simp
  have same: "Content other_name = Content red10"
    by (simp add: other_name_def red10_def)
  have h: "Sum256 sample_env (Content red10) = [0xCA]"
    by code_simp
  have d: "hex_of_bytes [0xCA :: byte] = ''ca''"
    by code_simp
  from digest_is_hex_sha256_of_the_bytes [OF run1 run2 same] h d
  show ?thesis by simp
qed

subsection \<open>Stored names\<close>

text \<open>
  Claim C5, as amended. The stored name of the original is the digest followed by the
  extension of the name the client declared (\<open>filepath.Ext\<close>: from its last dot, free
  of separators); the name of the thumbnail is the digest followed by \<open>.jpg\<close>. Two
  successful uploads of the same bytes get the same thumbnail name, and the same stored
  name when the extensions of their declared names agree.
\<close>

theorem stored_names_are_digest_plus_extension:
  assumes "processFile env cnd1 s1 file1 = (r1, StatusOK, t1)"
    and "processFile env cnd2 s2 file2 = (r2, StatusOK, t2)"
    and "Content file2 = Content file1"
  shows "col_filename (last (rows t1))
           = EncodeToString (Sum256 env (Content file1)) @ Ext (Filename file1) \<and>
         col_thumbnail_filename (last (rows t1))
           = EncodeToString (Sum256 env (Content file1)) @ ''.jpg'' \<and>
         files t1 (Join uploadDir (col_filename (last (rows t1)))) = Some (Content file1) \<and>
         files t1 (Join thumbnailDir (col_thumbnail_filename (last (rows t1)))) \<noteq> None \<and>
         CHR ''/'' \<notin> set (col_filename (last (rows t1))) \<and>
         col_thumbnail_filename (last (rows t2)) = col_thumbnail_filename (last (rows t1)) \<and>
         (Ext (Filename file2) = Ext (Filename file1) \<longrightarrow>
            col_filename (last (rows t2)) = col_filename (last (rows t1)))"
proof -
  let ?d = "EncodeToString (Sum256 env (Content file1))"
  have ne: "Join thumbnailDir x \<noteq> Join uploadDir y" for x y
    by (simp add: Join_def thumbnailDir_def uploadDir_def)
  from processFile_OK [OF assms(1)] obtain out where
    a: "col_filename (last (rows t1)) = ?d @ Ext (Filename file1)"
       "col_thumbnail_filename (last (rows t1)) = ?d @ ''.jpg''"
       "files t1 = (files (concurrent cnd1 s1))
          (Join uploadDir (?d @ Ext (Filename file1)) \<mapsto> Content file1,
           Join thumbnailDir (?d @ ''.jpg'') \<mapsto> out)"
    by auto
  from processFile_OK [OF assms(2)] have
    b: "col_filename (last (rows t2))
          = EncodeToString (Sum256 env (Content file2)) @ Ext (Filename file2)"
       "col_thumbnail_filename (last (rows t2))
          = EncodeToString (Sum256 env (Content file2)) @ ''.jpg''"
    by auto
  have "files t1 (Join uploadDir (?d @ Ext (Filename file1))) = Some (Content file1)"
    using a(3) ne [of "?d @ ''.jpg''" "?d @ Ext (Filename file1)"] by auto
  moreover have "files t1 (Join thumbnailDir (?d @ ''.jpg'')) \<noteq> None"
    using a(3) by simp
  moreover have "CHR ''/'' \<notin> set (?d @ Ext (Filename file1))"
    using EncodeToString_no_slash Ext_no_slash by simp
  ultimately show ?thesis
    using a(1,2) b assms(3) by simp
qed

theorem stored_names_are_digest_plus_extension_witness:
  "col_filename (last (rows (snd (snd (processFile sample_env calm empty_state red10)))))
     = ''ca.jpg'' \<and>
   col_thumbnail_filename (last (rows (snd (snd (processFile sample_env calm empty_state red10)))))
     = ''ca.jpg'' \<and>
   col_thumbnail_filename
     (last (rows (snd (snd (processFile sample_env later empty_state sunset)))))
     = ''ca.jpg'' \<and>
   col_filename (last (rows (snd (snd (processFile sample_env later empty_state sunset)))))
     = ''ca.jpg''"
proof -
  have run1: "processFile sample_env calm empty_state red10 =
      (fst (processFile sample_env calm empty_state red10), StatusOK,
       snd (snd (processFile sample_env calm empty_state red10)))"
    by (rule triple_collapse) code_simp
  have run2: "processFile sample_env later empty_state sunset =
      (fst (processFile sample_env later empty_state sunset), StatusOK,
       snd (snd (processFile sample_env later empty_state sunset)))"
    by (rule triple_collapse) code_simp
  have same: "Content sunset = Content red10"
    by (simp add: sunset_def red10_def)
  have d: "EncodeToString (Sum256 sample_env (Content red10)) = ''ca''"
    by code_simp
  have e: "Ext (Filename red10) = ''.jpg''" "Ext (Filename sunset) = ''.jpg''"
    by code_simp+
  from stored_names_are_digest_plus_extension [OF run1 run2 same] d e
  show ?thesis by simp
qed

text \<open>
  Claim C5 as stated fails: the same bytes under the names \<open>red.jpg\<close> and
  \<open>holiday.jpeg\<close> are stored under different names, because the extension is the
  client's.
\<close>

theorem same_bytes_different_stored_names:
  "Content other_name = Content red10 \<and>
   Filename other_name \<noteq> Filename red10 \<and>
   fst (snd (processFile sample_env calm empty_state red10)) = StatusOK \<and>
   fst (snd (processFile sample_env calm empty_state other_name)) = StatusOK \<and>
   map col_filename (rows (snd (snd (processFile sample_env calm empty_state red10))))
     = [''ca.jpg''] \<and>
   map col_filename (rows (snd (snd (processFile sample_env calm empty_state other_name))))
     = [''ca.jpeg'']"
  by code_simp

subsection \<open>Thumbnails\<close>




subsection \<open>The race past the duplicate lookup\<close>

lemma saveFile_ok:
  "\<not> create_err cnd \<Longrightarrow> write_err cnd = None \<Longrightarrow>
   saveFile cnd s src fn = (None, s\<lparr>files := (files s)(Join uploadDir fn \<mapsto> src)\<rparr>)"
  by (simp add: saveFile_def)

lemma generateThumbnail_ok:
  "\<not> imaging_open_err cnd \<Longrightarrow> files s (Join uploadDir fn) = Some bs \<Longrightarrow>
   Decode env bs = Some img \<Longrightarrow> \<not> imaging_save_err cnd \<Longrightarrow>
   Encode env JPEG (Thumbnail env img 120 120) = Some out \<Longrightarrow>
   generateThumbnail env cnd s fn =
     (Inr (take (length (Base fn) - length (Ext (Base fn))) (Base fn) @ ''.jpg''),
      s\<lparr>files := (files s)
         (Join thumbnailDir (take (length (Base fn) - length (Ext (Base fn))) (Base fn) @ ''.jpg'')
            \<mapsto> out)\<rparr>)"
  by (simp add: generateThumbnail_def Let_def Save_def Format_jpg)

lemma saveToDatabase_conflict:
  "\<not> os_open_err cnd \<Longrightarrow> files s (Join uploadDir fn) = Some bs \<Longrightarrow>
   DecodeConfig env bs = Some (w, h) \<Longrightarrow> \<not> exec_err cnd \<Longrightarrow>
   d \<in> set (map col_sha256sum (rows s)) \<Longrightarrow>
   saveToDatabase env cnd s fn t d =
     (Some UniqueViolation, s\<lparr>images_id_seq := images_id_seq s + 1\<rparr>)"
  by (simp add: saveToDatabase_def Exec_insert_def Let_def)

text \<open>
  Claim C2, as amended. When the duplicate lookup passes and another request commits a
  row of the same digest before this request's insert, and nothing else fails, the
  insert is refused for the uniqueness of \<open>sha256sum\<close> and the file is answered with
  status 500 "Failed to save to database", not with the 409 of a duplicate found by the
  lookup. The original and the thumbnail have been written by then.
\<close>

theorem insert_conflict_is_internal_error:
  assumes pc: "past_check env cnd s file"
    and race: "EncodeToString (Sum256 env (Content file))
                 \<in> set (map col_sha256sum (rows (concurrent cnd s)))"
    and nofault: "\<not> create_err cnd" "write_err cnd = None" "\<not> imaging_open_err cnd"
      "\<not> imaging_save_err cnd" "\<not> os_open_err cnd" "\<not> exec_err cnd"
    and codec: "Decode env (Content file) = Some img"
      "Encode env JPEG (Thumbnail env img 120 120) = Some out"
      "DecodeConfig env (Content file) = Some (w, h)"
    and s2: "s2 = (concurrent cnd s)\<lparr>files := (files (concurrent cnd s))
        (Join uploadDir (EncodeToString (Sum256 env (Content file)) @ Ext (Filename file))
           \<mapsto> Content file,
         Join thumbnailDir (EncodeToString (Sum256 env (Content file)) @ ''.jpg'') \<mapsto> out)\<rparr>"
  shows "saveToDatabase env cnd s2
           (EncodeToString (Sum256 env (Content file)) @ Ext (Filename file))
           (EncodeToString (Sum256 env (Content file)) @ ''.jpg'')
           (EncodeToString (Sum256 env (Content file)))
           = (Some UniqueViolation, s2\<lparr>images_id_seq := images_id_seq s2 + 1\<rparr>) \<and>
         processFile env cnd s file =
           ([''error'' \<mapsto> ''Failed to save to database''], StatusInternalServerError,
            s2\<lparr>images_id_seq := images_id_seq s2 + 1\<rparr>)"
proof -
  let ?d = "EncodeToString (Sum256 env (Content file))"
  let ?fn = "?d @ Ext (Filename file)"
  let ?s0 = "concurrent cnd s"
  let ?s1 = "?s0\<lparr>files := (files ?s0)(Join uploadDir ?fn \<mapsto> Content file)\<rparr>"
  have sf: "saveFile cnd ?s0 (Content file) ?fn = (None, ?s1)"
    by (rule saveFile_ok [OF nofault(1,2)])
  have t: "take (length (Base ?fn) - length (Ext (Base ?fn))) (Base ?fn) @ ''.jpg'' = ?d @ ''.jpg''"
    by (rule thumbnail_name [OF EncodeToString_no_dot EncodeToString_no_slash])
  have f1: "files ?s1 (Join uploadDir ?fn) = Some (Content file)" by simp
  have "generateThumbnail env cnd ?s1 ?fn =
     (Inr (?d @ ''.jpg''), ?s1\<lparr>files := (files ?s1)(Join thumbnailDir (?d @ ''.jpg'') \<mapsto> out)\<rparr>)"
    using generateThumbnail_ok [OF nofault(3) f1 codec(1) nofault(4) codec(2)]
    by (simp only: t)
  moreover have "?s1\<lparr>files := (files ?s1)(Join thumbnailDir (?d @ ''.jpg'') \<mapsto> out)\<rparr> = s2"
    by (simp add: s2)
  ultimately have gt: "generateThumbnail env cnd ?s1 ?fn = (Inr (?d @ ''.jpg''), s2)"
    by simp
  have ne: "Join uploadDir ?fn \<noteq> Join thumbnailDir (?d @ ''.jpg'')"
    by (simp add: Join_def thumbnailDir_def uploadDir_def)
  have f2: "files s2 (Join uploadDir ?fn) = Some (Content file)"
    using ne by (simp add: s2)
  have r2: "?d \<in> set (map col_sha256sum (rows s2))"
    using race by (simp add: s2)
  have db: "saveToDatabase env cnd s2 ?fn (?d @ ''.jpg'') ?d =
      (Some UniqueViolation, s2\<lparr>images_id_seq := images_id_seq s2 + 1\<rparr>)"
    by (rule saveToDatabase_conflict [OF nofault(5) f2 codec(3) nofault(6) r2])
  from db processFile_database_err [OF pc sf gt db] show ?thesis by simp
qed

theorem insert_conflict_is_internal_error_witness:
  "fst (snd (processFile sample_env racing empty_state red10)) = StatusInternalServerError \<and>
   fst (processFile sample_env racing empty_state red10) ''error''
     = Some ''Failed to save to database'' \<and>
   files (snd (snd (processFile sample_env racing empty_state red10)))
     (Join uploadDir ''ca.jpg'') = Some (Content red10)"
proof -
  have pc: "past_check sample_env racing empty_state red10"
    by (simp add: past_check_def racing_def calm_def red10_def empty_state_def
          maxUploadSize_def Read_def QueryRow_exists_def sample_env_def sample_detect_def
          jpeg_magic_def)
  have race: "EncodeToString (Sum256 sample_env (Content red10))
                 \<in> set (map col_sha256sum (rows (concurrent racing empty_state)))"
    by code_simp
  have nofault: "\<not> create_err racing" "write_err racing = None" "\<not> imaging_open_err racing"
      "\<not> imaging_save_err racing" "\<not> os_open_err racing" "\<not> exec_err racing"
    by (simp_all add: racing_def calm_def)
  have codec: "Decode sample_env (Content red10) = Some \<lparr>Dx = 10, Dy = 10, Pix = [0xE0]\<rparr>"
      "Encode sample_env JPEG (Thumbnail sample_env \<lparr>Dx = 10, Dy = 10, Pix = [0xE0]\<rparr> 120 120)
         = Some [0xFF, 0xD8, 0xFF, 120, 120]"
      "DecodeConfig sample_env (Content red10) = Some (10, 10)"
    by code_simp+
  have d: "EncodeToString (Sum256 sample_env (Content red10)) = ''ca''"
      "Ext (Filename red10) = ''.jpg''"
    by code_simp+
  have ne: "Join uploadDir ''ca.jpg'' \<noteq> Join thumbnailDir ''ca.jpg''"
    by (simp add: Join_def uploadDir_def thumbnailDir_def)
  from insert_conflict_is_internal_error [OF pc race nofault codec refl] d ne
  show ?thesis by simp
qed

text \<open>
  Claim C2 as stated fails: with the table empty at the lookup and the same bytes
  uploaded by another request before the insert, the answer is 500, while the same
  upload against the table as the other request left it is answered 409.
\<close>

theorem insert_conflict_differs_from_duplicate:
  "QueryRow_exists racing empty_state (EncodeToString (Sum256 sample_env (Content red10)))
     = Inr False \<and>
   fst (snd (processFile sample_env racing empty_state red10)) = StatusInternalServerError \<and>
   fst (processFile sample_env racing empty_state red10) ''error''
     = Some ''Failed to save to database'' \<and>
   fst (snd (processFile sample_env calm (concurrent racing empty_state) red10))
     = StatusConflict \<and>
   fst (processFile sample_env calm (concurrent racing empty_state) red10) ''error''
     = Some ''File already exists''"
  by code_simp

subsection \<open>The upload handler\<close>

lemma uploadLoop_acc:
  "uploadLoop env cnds s fs acc =
     (case uploadLoop env cnds s fs [] of (c, rs, s') \<Rightarrow> (c, acc @ rs, s'))"
proof (induction fs arbitrary: cnds s acc)
  case Nil
  show ?case by simp
next
  case (Cons f rest)
  obtain r c s1 where p: "processFile env (cnds 0) s f = (r, c, s1)"
    by (cases "processFile env (cnds 0) s f")
  show ?case
  proof (cases "c = StatusOK")
    case False
    with p show ?thesis by simp
  next
    case True
    let ?r = "r(''filename'' \<mapsto> Filename f)"
    have "uploadLoop env cnds s (f # rest) acc =
            uploadLoop env (\<lambda>i. cnds (Suc i)) s1 rest (acc @ [?r])"
      using p True by simp
    also have "\<dots> = (case uploadLoop env (\<lambda>i. cnds (Suc i)) s1 rest [] of
                         (c, rs, s') \<Rightarrow> (c, (acc @ [?r]) @ rs, s'))"
      by (rule Cons.IH)
    finally have l: "uploadLoop env cnds s (f # rest) acc =
        (case uploadLoop env (\<lambda>i. cnds (Suc i)) s1 rest [] of
           (c, rs, s') \<Rightarrow> (c, acc @ ?r # rs, s'))"
      by simp
    have "uploadLoop env cnds s (f # rest) [] =
            uploadLoop env (\<lambda>i. cnds (Suc i)) s1 rest [?r]"
      using p True by simp
    also have "\<dots> = (case uploadLoop env (\<lambda>i. cnds (Suc i)) s1 rest [] of
                         (c, rs, s') \<Rightarrow> (c, [?r] @ rs, s'))"
      by (rule Cons.IH)
    finally have r: "uploadLoop env cnds s (f # rest) [] =
        (case uploadLoop env (\<lambda>i. cnds (Suc i)) s1 rest [] of
           (c, rs, s') \<Rightarrow> (c, ?r # rs, s'))"
      by simp
    show ?thesis
      unfolding l r by (simp split: prod.splits)
  qed
qed






subsection \<open>The response body\<close>

lemma processFile_shape_fst:
  "(fst (snd (processFile env cnd s file)) = StatusOK \<and>
    dom (fst (processFile env cnd s file)) = {''message'', ''sha256sum''}) \<or>
   (fst (snd (processFile env cnd s file)) \<noteq> StatusOK \<and>
    dom (fst (processFile env cnd s file)) = {''error''})"
  by (cases rule: processFile_cases [of "file" env cnd s]) (simp_all add: insert_commute)

lemma success_objectI:
  assumes "processFile env cnd s file = (r, StatusOK, s')"
  shows "success_object env file (r(''filename'' \<mapsto> Filename file))"
proof -
  from processFile_OK [OF assms] have
    r: "r = [''message'' \<mapsto> ''File uploaded successfully'',
             ''sha256sum'' \<mapsto> EncodeToString (Sum256 env (Content file))]"
    by blast
  show ?thesis
    unfolding success_object_def r by (simp add: insert_commute)
qed

lemma failure_objectI:
  assumes "processFile env cnd s file = (r, c, s')" and "c \<noteq> StatusOK"
  shows "failure_object file (r(''filename'' \<mapsto> Filename file))"
proof -
  from processFile_shape_fst [of env cnd s "file"] assms have "dom r = {''error''}"
    by simp
  then show ?thesis
    unfolding failure_object_def by simp
qed

lemma uploadLoop_shape:
  assumes "uploadLoop env cnds s fs [] = (c, rs, s')"
  shows "(c = StatusOK \<longrightarrow>
            length rs = length fs \<and>
            (\<forall>i < length rs. success_object env (fs ! i) (rs ! i))) \<and>
         (c \<noteq> StatusOK \<longrightarrow>
            (\<exists>k < length fs.
               length rs = Suc k \<and>
               (\<forall>i < k. success_object env (fs ! i) (rs ! i)) \<and>
               failure_object (fs ! k) (rs ! k) \<and>
               all_succeed env cnds s (take k fs) \<and>
               \<not> all_succeed env cnds s (take (Suc k) fs)))"
  using assms
proof (induction fs arbitrary: cnds s c rs s')
  case Nil
  then show ?case by simp
next
  case (Cons f rest)
  obtain r c0 s1 where p: "processFile env (cnds 0) s f = (r, c0, s1)"
    by (cases "processFile env (cnds 0) s f")
  define r' where "r' = r(''filename'' \<mapsto> Filename f)"
  have step: "uploadLoop env cnds s (f # rest) [] =
      (if c0 \<noteq> StatusOK then (c0, [r'], s1)
       else uploadLoop env (\<lambda>i. cnds (Suc i)) s1 rest [r'])"
    unfolding r'_def using p by (simp add: Let_def)
  show ?case
  proof (cases "c0 = StatusOK")
    case False
    with Cons.prems step have e: "c = c0" "rs = [r']" by simp_all
    have fo: "failure_object f r'"
      unfolding r'_def by (rule failure_objectI [OF p False])
    have "\<not> all_succeed env cnds s (take (Suc 0) (f # rest))"
      using p False by simp
    with fo have "\<exists>k < length (f # rest).
               length [r'] = Suc k \<and>
               (\<forall>i < k. success_object env ((f # rest) ! i) ([r'] ! i)) \<and>
               failure_object ((f # rest) ! k) ([r'] ! k) \<and>
               all_succeed env cnds s (take k (f # rest)) \<and>
               \<not> all_succeed env cnds s (take (Suc k) (f # rest))"
      by (intro exI [of _ 0]) simp
    with e False show ?thesis by simp
  next
    case True
    have so: "success_object env f r'"
      unfolding r'_def using p True by (auto intro: success_objectI)
    obtain c1 rs0 s2 where l: "uploadLoop env (\<lambda>i. cnds (Suc i)) s1 rest [] = (c1, rs0, s2)"
      by (cases "uploadLoop env (\<lambda>i. cnds (Suc i)) s1 rest []")
    have "uploadLoop env cnds s (f # rest) [] = uploadLoop env (\<lambda>i. cnds (Suc i)) s1 rest [r']"
      using step True by simp
    also have "\<dots> = (c1, r' # rs0, s2)"
      by (subst uploadLoop_acc) (simp add: l)
    finally have e: "c = c1" "rs = r' # rs0"
      using Cons.prems by simp_all
    note ih = Cons.IH [OF l]
    have head: "all_succeed env cnds s (f # xs) = all_succeed env (\<lambda>i. cnds (Suc i)) s1 xs"
      for xs
      using p True by simp
    show ?thesis
    proof (cases "c1 = StatusOK")
      case c1: True
      with ih have n: "length rs0 = length rest"
        and all: "\<forall>i < length rs0. success_object env (rest ! i) (rs0 ! i)"
        by simp_all
      have "success_object env ((f # rest) ! i) ((r' # rs0) ! i)"
        if "i < length (r' # rs0)" for i
      proof (cases i)
        case 0
        with so show ?thesis by simp
      next
        case (Suc j)
        with that all show ?thesis by simp
      qed
      with e c1 n show ?thesis by simp
    next
      case c1: False
      with ih obtain k where k: "k < length rest" "length rs0 = Suc k"
        "\<forall>i < k. success_object env (rest ! i) (rs0 ! i)"
        "failure_object (rest ! k) (rs0 ! k)"
        "all_succeed env (\<lambda>i. cnds (Suc i)) s1 (take k rest)"
        "\<not> all_succeed env (\<lambda>i. cnds (Suc i)) s1 (take (Suc k) rest)"
        by blast
      have first: "success_object env ((f # rest) ! i) ((r' # rs0) ! i)"
        if "i < Suc k" for i
      proof (cases i)
        case 0
        with so show ?thesis by simp
      next
        case (Suc j)
        with that k(3) show ?thesis by simp
      qed
      have "Suc k < length (f # rest) \<and>
               length (r' # rs0) = Suc (Suc k) \<and>
               (\<forall>i < Suc k. success_object env ((f # rest) ! i) ((r' # rs0) ! i)) \<and>
               failure_object ((f # rest) ! Suc k) ((r' # rs0) ! Suc k) \<and>
               all_succeed env cnds s (take (Suc k) (f # rest)) \<and>
               \<not> all_succeed env cnds s (take (Suc (Suc k)) (f # rest))"
        using k first by (simp add: head del: all_succeed.simps)
      then have "\<exists>k < length (f # rest).
               length (r' # rs0) = Suc k \<and>
               (\<forall>i < k. success_object env ((f # rest) ! i) ((r' # rs0) ! i)) \<and>
               failure_object ((f # rest) ! k) ((r' # rs0) ! k) \<and>
               all_succeed env cnds s (take k (f # rest)) \<and>
               \<not> all_succeed env cnds s (take (Suc k) (f # rest))"
        by blast
      with e c1 show ?thesis by simp
    qed
  qed
qed

text \<open>
  Claim C8, as amended. When the multipart form parses, the body of the response is a
  JSON array with one object per processed file, in the order of the form. When the
  status is 200 there is one object for every file of the request, each holding
  \<open>filename\<close>, \<open>message\<close> and \<open>sha256sum\<close>. Otherwise the array ends at the first
  file that fails: the files before it succeed and have objects with \<open>filename\<close>,
  \<open>message\<close> and \<open>sha256sum\<close>, the failing file has the last object, with
  \<open>filename\<close> and \<open>error\<close>, and the files after it have none. When the form does
  not parse, the body is a single object that holds \<open>error\<close>, with status 400.
\<close>

theorem body_has_one_object_per_processed_file:
  "(\<exists>rs. fst (snd (uploadHandler env cnds s (Inr form))) = JSON_array rs \<and>
      (fst (uploadHandler env cnds s (Inr form)) = StatusOK \<longrightarrow>
         length rs = length (File form ''file'') \<and>
         (\<forall>i < length rs. success_object env (File form ''file'' ! i) (rs ! i))) \<and>
      (fst (uploadHandler env cnds s (Inr form)) \<noteq> StatusOK \<longrightarrow>
         (\<exists>k < length (File form ''file'').
            length rs = Suc k \<and>
            (\<forall>i < k. success_object env (File form ''file'' ! i) (rs ! i)) \<and>
            failure_object (File form ''file'' ! k) (rs ! k) \<and>
            all_succeed env cnds s (take k (File form ''file'')) \<and>
            \<not> all_succeed env cnds s (take (Suc k) (File form ''file''))))) \<and>
   uploadHandler env cnds s (Inl err) = (StatusBadRequest, JSON_object [''error'' \<mapsto> err], s)"
proof -
  obtain c rs s' where l: "uploadLoop env cnds s (File form ''file'') [] = (c, rs, s')"
    by (cases "uploadLoop env cnds s (File form ''file'') []")
  then have h: "uploadHandler env cnds s (Inr form) = (c, JSON_array rs, s')"
    by (simp add: uploadHandler_def)
  from uploadLoop_shape [OF l] h show ?thesis
    by (simp add: uploadHandler_def)
qed

theorem body_has_one_object_per_processed_file_witness:
  "(\<exists>rs. fst (snd (uploadHandler sample_env (\<lambda>i. calm) empty_state (Inr red_then_wide)))
          = JSON_array rs \<and>
        length rs = 2 \<and>
        success_object sample_env red10 (rs ! 0) \<and>
        success_object sample_env wide_png (rs ! 1)) \<and>
   (\<exists>rs. fst (snd (uploadHandler sample_env (\<lambda>i. calm) empty_state
                       (Inr red_then_note_then_wide)))
          = JSON_array rs \<and>
        length rs = 2 \<and>
        success_object sample_env red10 (rs ! 0) \<and>
        failure_object note_txt (rs ! 1))"
proof -
  note t1 = body_has_one_object_per_processed_file
         [of sample_env "\<lambda>i. calm" empty_state red_then_wide, THEN conjunct1]
  have ok: "fst (uploadHandler sample_env (\<lambda>i. calm) empty_state (Inr red_then_wide)) = StatusOK"
    by code_simp
  have f1: "File red_then_wide ''file'' = [red10, wide_png]"
    by (simp add: red_then_wide_def)
  from t1 ok f1 obtain rs where
    a: "fst (snd (uploadHandler sample_env (\<lambda>i. calm) empty_state (Inr red_then_wide)))
           = JSON_array rs"
    and len: "length rs = 2"
    and all: "\<forall>i < length rs. success_object sample_env ([red10, wide_png] ! i) (rs ! i)"
    by auto
  from all [rule_format, of 0] all [rule_format, of 1] len
  have "success_object sample_env red10 (rs ! 0)" "success_object sample_env wide_png (rs ! 1)"
    by simp_all
  with a len have first: "\<exists>rs.
        fst (snd (uploadHandler sample_env (\<lambda>i. calm) empty_state (Inr red_then_wide)))
          = JSON_array rs \<and>
        length rs = 2 \<and>
        success_object sample_env red10 (rs ! 0) \<and>
        success_object sample_env wide_png (rs ! 1)"
    by blast
  note t2 = body_has_one_object_per_processed_file
         [of sample_env "\<lambda>i. calm" empty_state red_then_note_then_wide, THEN conjunct1]
  have bad: "fst (uploadHandler sample_env (\<lambda>i. calm) empty_state (Inr red_then_note_then_wide))
               \<noteq> StatusOK"
    by code_simp
  have f2: "File red_then_note_then_wide ''file'' = [red10, note_txt, wide_png]"
    by (simp add: red_then_note_then_wide_def)
  have one: "all_succeed sample_env (\<lambda>i. calm) empty_state [red10]"
    by code_simp
  have two: "\<not> all_succeed sample_env (\<lambda>i. calm) empty_state [red10, note_txt]"
    by code_simp
  from t2 [unfolded f2] bad obtain qs k where
    b: "fst (snd (uploadHandler sample_env (\<lambda>i. calm) empty_state
                    (Inr red_then_note_then_wide))) = JSON_array qs"
    and k: "k < length [red10, note_txt, wide_png]" "length qs = Suc k"
      "\<forall>i < k. success_object sample_env ([red10, note_txt, wide_png] ! i) (qs ! i)"
      "failure_object ([red10, note_txt, wide_png] ! k) (qs ! k)"
      "all_succeed sample_env (\<lambda>i. calm) empty_state (take k [red10, note_txt, wide_png])"
      "\<not> all_succeed sample_env (\<lambda>i. calm) empty_state (take (Suc k) [red10, note_txt, wide_png])"
    by blast
  from k(1) have "k = 0 \<or> k = 1 \<or> k = 2" by (simp; arith)
  then have k1: "k = 1"
  proof (elim disjE)
    assume "k = 0"
    with k(6) one show ?thesis by simp
  next
    assume "k = 1"
    then show ?thesis .
  next
    assume "k = 2"
    with k(5) two show ?thesis by (simp add: numeral_2_eq_2)
  qed
  from k(3) [rule_format, of 0] k(4) k(2) k1
  have "length qs = 2" "success_object sample_env red10 (qs ! 0)"
    "failure_object note_txt (qs ! 1)"
    by simp_all
  with b first show ?thesis by blast
qed

text \<open>
  Claim C8 as stated fails: a request with two files of which the first is not an
  image gets an array of one object.
\<close>

theorem failed_request_has_fewer_objects_than_files:
  "length (File note_then_red ''file'') = 2 \<and>
   fst (uploadHandler sample_env (\<lambda>i. calm) empty_state (Inr note_then_red)) = StatusBadRequest \<and>
   (case fst (snd (uploadHandler sample_env (\<lambda>i. calm) empty_state (Inr note_then_red))) of
      JSON_array rs \<Rightarrow> map (\<lambda>r. (r ''filename'', r ''error'')) rs
    | JSON_object r \<Rightarrow> [])
     = [(Some ''note.jpg'', Some ''File type not allowed. Only JPG and PNG are allowed.'')]"
  by code_simp

subsection \<open>The recent uploads\<close>

lemma scanRows_Inr:
  "scanRows env qc i rs acc = Inr images \<Longrightarrow>
   length images = length acc + length rs \<and>
   map ID images = map ID acc @ map col_id rs \<and>
   map UploadDate images = map UploadDate acc @ map (\<lambda>r. FormatTime env (col_upload_date r)) rs"
proof (induction rs arbitrary: i acc)
  case Nil
  then show ?case by simp
next
  case (Cons r rs)
  from Cons.prems have "scan_err qc \<noteq> Some i" by auto
  with Cons.prems Cons.IH show ?case by fastforce
qed

lemma Query_recent_Inr:
  assumes "Query_recent qc s limit = Inr selected"
  shows "0 \<le> limit \<and>
         selected = take (nat limit)
            (sort_key (\<lambda>r. (- col_upload_date r, tie_order qc r)) (rows s))"
  using assms by (auto simp: Query_recent_def split: if_splits)

lemma sort_key_descending:
  "sorted_wrt (\<lambda>a b. col_upload_date b \<le> col_upload_date a)
     (sort_key (\<lambda>r. (- col_upload_date r, tie r :: nat)) rs)"
proof -
  let ?k = "\<lambda>r. (- col_upload_date r, tie r)"
  have "sorted (map ?k (sort_key ?k rs))"
    by (rule sorted_sort_key)
  then have "sorted_wrt (\<lambda>a b. ?k a \<le> ?k b) (sort_key ?k rs)"
    by (simp add: sorted_map)
  then show ?thesis
    by (rule sorted_wrt_mono_rel [rotated]) (auto simp: less_eq_prod_def)
qed

text \<open>
  Claim C9, as amended. A successful query for the recent uploads returns at most
  \<open>limit\<close> records: the first \<open>limit\<close> of the rows of the table put in descending
  order of \<open>upload_date\<close>. The statement names no second sort key, so the order of
  rows of equal \<open>upload_date\<close> is the server's choice.
\<close>

theorem recent_images_limited_and_descending:
  assumes "getRecentImages env qc s limit = Inr images"
  shows "int (length images) \<le> limit \<and>
         (\<exists>ordered.
            mset ordered = mset (rows s) \<and>
            sorted_wrt (\<lambda>a b. col_upload_date b \<le> col_upload_date a) ordered \<and>
            map ID images = map col_id (take (nat limit) ordered) \<and>
            map UploadDate images
              = map (\<lambda>r. FormatTime env (col_upload_date r)) (take (nat limit) ordered))"
proof -
  let ?ordered = "sort_key (\<lambda>r. (- col_upload_date r, tie_order qc r)) (rows s)"
  from assms obtain selected where
    q: "Query_recent qc s limit = Inr selected"
    and sc: "scanRows env qc 0 selected [] = Inr images"
    by (auto simp: getRecentImages_def split: sum.splits if_splits)
  from Query_recent_Inr [OF q] have l: "0 \<le> limit"
    and sel: "selected = take (nat limit) ?ordered"
    by simp_all
  from scanRows_Inr [OF sc] have
    n: "length images = length selected"
    and ids: "map ID images = map col_id selected"
    and dates: "map UploadDate images = map (\<lambda>r. FormatTime env (col_upload_date r)) selected"
    by simp_all
  from n sel l have "int (length images) \<le> limit" by simp
  moreover have "mset ?ordered = mset (rows s)" by simp
  moreover have "sorted_wrt (\<lambda>a b. col_upload_date b \<le> col_upload_date a) ?ordered"
    by (rule sort_key_descending)
  ultimately show ?thesis using ids dates sel by blast
qed

theorem recent_images_limited_and_descending_witness:
  "map col_upload_date (rows spaced_state) = [1000, 2000] \<and>
   (\<exists>images. getRecentImages sample_env quiet spaced_state 1 = Inr images \<and>
      int (length images) \<le> 1 \<and> map ID images = [2])"
proof -
  have d: "map col_upload_date (rows spaced_state) = [1000, 2000]"
    by code_simp
  have ids: "(case getRecentImages sample_env quiet spaced_state 1 of
               Inr images \<Rightarrow> Some (map ID images) | Inl e \<Rightarrow> None) = Some [2]"
    by code_simp
  then obtain images where
    g: "getRecentImages sample_env quiet spaced_state 1 = Inr images" and i: "map ID images = [2]"
    by (auto split: sum.splits)
  from recent_images_limited_and_descending [OF g] have "int (length images) \<le> 1"
    by simp
  with d g i show ?thesis by simp
qed

text \<open>
  Claim C9 as stated fails on the order of ties: two rows of the same
  \<open>upload_date\<close> can come back with the smaller id first.
\<close>

theorem ties_not_broken_by_descending_id:
  "map col_upload_date (rows tied_state) = [1000, 1000] \<and>
   map col_id (rows tied_state) = [1, 2] \<and>
   (case getRecentImages sample_env quiet tied_state 100 of
      Inr images \<Rightarrow> map ID images
    | Inl e \<Rightarrow> []) = [1, 2]"
  by code_simp

end
